theory Spec2Isabelle
  imports Main
begin

section \<open>Go standard-library helpers used by the image-partition action\<close>

text \<open>
  Go strings are byte sequences; they are modelled as \<^typ>\<open>string\<close> (a list of 8-bit
  characters). \<open>fmt.Sprintf\<close> with the verbs \<open>%s\<close> and \<open>%d\<close> is concatenation, with
  \<open>%d\<close> printing a signed decimal numeral.
\<close>

definition digit_char :: "nat \<Rightarrow> char" where
  "digit_char d = char_of (48 + d)"

fun show_nat :: "nat \<Rightarrow> string" where
  "show_nat n = (if n < 10 then [digit_char n] else show_nat (n div 10) @ [digit_char (n mod 10)])"

declare show_nat.simps [simp del]

definition show_int :: "int \<Rightarrow> string" where
  "show_int i = (if i < 0 then CHR ''-'' # show_nat (nat (- i)) else show_nat (nat i))"

text \<open>\<open>strings.HasPrefix\<close> and \<open>strings.Contains\<close>.\<close>

fun has_prefix :: "string \<Rightarrow> string \<Rightarrow> bool" where
  "has_prefix s [] = True"
| "has_prefix [] (p # ps) = False"
| "has_prefix (c # cs) (p # ps) = (c = p \<and> has_prefix cs ps)"

fun contains_str :: "string \<Rightarrow> string \<Rightarrow> bool" where
  "contains_str [] sub = has_prefix [] sub"
| "contains_str (c # cs) sub = (has_prefix (c # cs) sub \<or> contains_str cs sub)"

text \<open>\<open>strings.Join(elems, sep)\<close>.\<close>

fun join_strs :: "string list \<Rightarrow> string \<Rightarrow> string" where
  "join_strs [] sep = []"
| "join_strs [x] sep = x"
| "join_strs (x # y # ys) sep = x @ sep @ join_strs (y # ys) sep"

text \<open>The byte test \<open>last >= '0' && last <= '9'\<close>.\<close>

definition is_digit :: "char \<Rightarrow> bool" where
  "is_digit c = ((48::nat) \<le> of_char c \<and> of_char c \<le> (57::nat))"

text \<open>
  Library functions whose definitions are outside the repository are parameters of the
  model: \<open>strings.TrimSpace\<close>, \<open>path.Join\<close> (two arguments) and
  \<open>units.FromHumanSize\<close> (\<open>None\<close> when it returns an error).
\<close>

record golib =
  TrimSpace :: "string \<Rightarrow> string"
  path_Join :: "string \<Rightarrow> string \<Rightarrow> string"
  FromHumanSize :: "string \<Rightarrow> int option"

section \<open>Data model\<close>

text \<open>
  \<open>Flags\<close> is a slice; a nil slice and an empty one behave alike in the code (the guarded
  loop over it runs zero times), so both are the empty list.
\<close>

record Partition =
  number :: int
  Name :: string
  Start :: string
  End :: string
  FS :: string
  Flags :: "string list"
  FSUUID :: string

text \<open>
  \<open>part\<close> is a pointer into the backing array of the action's \<open>Partitions\<close> slice:
  \<open>None\<close> is nil, \<open>Some k\<close> points at element \<open>k\<close>.
\<close>

record Mountpoint =
  Mountpoint :: string
  Partition :: string
  Options :: "string list"
  part :: "nat option"

record ImagePartitionAction =
  ImageName :: string
  ImageSize :: string
  PartitionType :: string
  Partitions :: "Partition list"
  Mountpoints :: "Mountpoint list"
  size64 :: int
  usingLoop :: bool

text \<open>The fields of \<open>debos.DebosContext\<close> that the action and the driver use.\<close>

record DebosContext =
  Scratchdir :: string
  Rootdir :: string
  Artifactdir :: string
  Image :: string
  ImageMntDir :: string
  ImageFSTab :: string
  ImageKernelRoot :: string

datatype error =
    PartitionWithoutName
  | PartitionMissingStart string
  | PartitionMissingEnd string
  | PartitionMissingFS string
  | PartitionNotFound string
  | ImageSizeParse string
  | MissingFSUUID string
  | NoRootUUID
  | FailedToGetUUID string
  | OpenImageFailed string
  | ResizeImageFailed string
  | LoopSetupFailed
  | MountFailed string string
  | External string
  | Panic

section \<open>Device-path naming\<close>

text \<open>
  \<open>getPartitionDevice\<close>: indexing \<open>context.Image[len(context.Image)-1]\<close> panics on the
  empty string, which is the result \<open>None\<close>.
\<close>

definition getPartitionDevice :: "int \<Rightarrow> DebosContext \<Rightarrow> string option" where
  "getPartitionDevice num c =
     (let suffix = (if contains_str (Image c) ''/disk/by-id/'' then ''-part'' else ''p'')
      in if Image c = [] then None
         else if is_digit (last (Image c))
              then Some (Image c @ suffix @ show_int num)
              else Some (Image c @ show_int num))"

section \<open>The outside world\<close>

text \<open>
  Every operation on the host (a command run through \<open>debos.Command{}.Run\<close>, a process
  started with \<open>exec.Command\<close>, a system call, a request to the sandbox) is a \<open>call\<close>.
  What the host answers is a parameter of the model: an environment maps the calls made
  so far and the current call to a response. The calls made are recorded in order.
\<close>

datatype call =
    CommandRun string "string list"
  | ExecOutput "string list"
  | ExecRun "string list"
  | MkdirAll string
  | Mount string string string
  | Unmount string
  | OpenFile string
  | Truncate string int
  | CloseFile string
  | CreateImage string int

record response =
  resp_err :: "string option"
  resp_out :: string

type_synonym env = "call list \<Rightarrow> call \<Rightarrow> response"

definition perform :: "env \<Rightarrow> call \<Rightarrow> call list \<Rightarrow> response \<times> call list" where
  "perform E k tr = (E tr k, tr @ [k])"

section \<open>Verify\<close>

text \<open>
  The first loop of \<open>Verify\<close>: the number is stored before the fields are checked, and an
  early return leaves the numbers assigned so far in place (pointer receiver).
\<close>

fun verify_partitions :: "int \<Rightarrow> Partition list \<Rightarrow> error option \<times> Partition list" where
  "verify_partitions num [] = (None, [])"
| "verify_partitions num (p # ps) =
     (let p' = p\<lparr>number := num\<rparr>
      in if Name p' = [] then (Some PartitionWithoutName, p' # ps)
         else if Start p' = [] then (Some (PartitionMissingStart (Name p')), p' # ps)
         else if End p' = [] then (Some (PartitionMissingEnd (Name p')), p' # ps)
         else if FS p' = [] then (Some (PartitionMissingFS (Name p')), p' # ps)
         else (case verify_partitions (num + 1) ps of (e, ps') \<Rightarrow> (e, p' # ps')))"

text \<open>The inner loop: the index of the first partition whose name is the one looked for.\<close>

fun find_partition :: "string \<Rightarrow> Partition list \<Rightarrow> nat \<Rightarrow> nat option" where
  "find_partition nm [] pidx = None"
| "find_partition nm (p # ps) pidx =
     (if nm = Name p then Some pidx else find_partition nm ps (Suc pidx))"

text \<open>
  The second loop: \<open>m.part\<close> is overwritten only when a partition matches, and the test
  \<open>m.part == nil\<close> reads whatever it holds then.
\<close>

fun resolve_mounts :: "Partition list \<Rightarrow> Mountpoint list \<Rightarrow> error option \<times> Mountpoint list" where
  "resolve_mounts ps [] = (None, [])"
| "resolve_mounts ps (m # ms) =
     (let m' = (case find_partition (Partition m) ps 0 of
                  Some k \<Rightarrow> m\<lparr>part := Some k\<rparr>
                | None \<Rightarrow> m)
      in if part m' = None then (Some (PartitionNotFound (Mountpoint m')), m' # ms)
         else (case resolve_mounts ps ms of (e, ms') \<Rightarrow> (e, m' # ms')))"

definition Verify :: "golib \<Rightarrow> ImagePartitionAction \<Rightarrow> error option \<times> ImagePartitionAction" where
  "Verify G i =
     (case verify_partitions 1 (Partitions i) of
        (Some e, ps) \<Rightarrow> (Some e, i\<lparr>Partitions := ps\<rparr>)
      | (None, ps) \<Rightarrow>
          (case resolve_mounts ps (Mountpoints i) of
             (Some e, ms) \<Rightarrow> (Some e, i\<lparr>Partitions := ps, Mountpoints := ms\<rparr>)
           | (None, ms) \<Rightarrow>
               (case FromHumanSize G (ImageSize i) of
                  None \<Rightarrow> (Some (ImageSizeParse (ImageSize i)), i\<lparr>Partitions := ps, Mountpoints := ms\<rparr>)
                | Some sz \<Rightarrow> (None, i\<lparr>Partitions := ps, Mountpoints := ms, size64 := sz\<rparr>))))"

section \<open>Boot metadata\<close>

text \<open>
  Following \<open>m.part\<close>: a nil pointer panics. An index outside the array stands for no Go
  state and is treated the same way.
\<close>

definition deref :: "Partition list \<Rightarrow> nat option \<Rightarrow> Partition option" where
  "deref ps r = (case r of None \<Rightarrow> None
                 | Some k \<Rightarrow> if k < length ps then Some (ps ! k) else None)"

definition tab :: string where
  "tab = [CHR 0x09]"

definition newline :: string where
  "newline = [CHR 0x0A]"

text \<open>The loop of \<open>generateFSTab\<close> over the mounts, writing into the buffer.\<close>

fun fstab_loop :: "Partition list \<Rightarrow> Mountpoint list \<Rightarrow> string \<Rightarrow> error option \<times> string" where
  "fstab_loop ps [] buf = (None, buf)"
| "fstab_loop ps (m # ms) buf =
     (let options = ''defaults'' # Options m
      in case deref ps (part m) of
           None \<Rightarrow> (Some Panic, buf)
         | Some p \<Rightarrow>
             if FSUUID p = [] then (Some (MissingFSUUID (Name p)), buf)
             else (let fs = (if FS p = ''fat32'' then ''vfat'' else FS p)
                   in fstab_loop ps ms
                        (buf @ ''UUID='' @ FSUUID p @ tab @ Mountpoint m @ tab @ fs @ tab
                             @ join_strs options '','' @ tab @ ''0'' @ tab @ ''0'' @ newline)))"

definition generateFSTab :: "ImagePartitionAction \<Rightarrow> DebosContext \<Rightarrow> error option \<times> DebosContext" where
  "generateFSTab i c =
     (case fstab_loop (Partitions i) (Mountpoints i) [] of
        (e, buf) \<Rightarrow> (e, c\<lparr>ImageFSTab := buf\<rparr>))"

fun kernel_root_loop :: "Partition list \<Rightarrow> Mountpoint list \<Rightarrow> DebosContext \<Rightarrow> error option \<times> DebosContext" where
  "kernel_root_loop ps [] c = (None, c)"
| "kernel_root_loop ps (m # ms) c =
     (if Mountpoint m = ''/''
      then (case deref ps (part m) of
              None \<Rightarrow> (Some Panic, c)
            | Some p \<Rightarrow>
                if FSUUID p = [] then (Some NoRootUUID, c)
                else (None, c\<lparr>ImageKernelRoot := ''root=UUID='' @ FSUUID p\<rparr>))
      else kernel_root_loop ps ms c)"

definition generateKernelRoot :: "ImagePartitionAction \<Rightarrow> DebosContext \<Rightarrow> error option \<times> DebosContext" where
  "generateKernelRoot i c = kernel_root_loop (Partitions i) (Mountpoints i) c"

section \<open>Provisioning\<close>

text \<open>
  \<open>PreMachine\<close> asks the sandbox for an image; the answer carries the path. It has a
  value receiver and does not write to the receiver.
\<close>

definition PreMachine ::
  "env \<Rightarrow> ImagePartitionAction \<Rightarrow> DebosContext \<Rightarrow> string list \<Rightarrow> call list
     \<Rightarrow> error option \<times> DebosContext \<times> string list \<times> call list" where
  "PreMachine E i c args tr =
     (case perform E (CreateImage (ImageName i) (size64 i)) tr of
        (r, tr1) \<Rightarrow>
          (case resp_err r of
             Some e \<Rightarrow> (Some (External e), c, args, tr1)
           | None \<Rightarrow> (None, c\<lparr>Image := resp_out r\<rparr>,
                      args @ [''--internal-image'', resp_out r], tr1)))"

text \<open>
  \<open>PreNoMachine\<close> is declared with a value receiver: \<open>i\<close> is a copy of the caller's
  struct. The second component of the result is that copy when the method returns.
\<close>

definition PreNoMachine ::
  "env \<Rightarrow> golib \<Rightarrow> ImagePartitionAction \<Rightarrow> DebosContext \<Rightarrow> call list
     \<Rightarrow> error option \<times> ImagePartitionAction \<times> DebosContext \<times> call list" where
  "PreNoMachine E G i c tr =
     (case perform E (OpenFile (ImageName i)) tr of
        (r1, tr1) \<Rightarrow>
          (case resp_err r1 of
             Some e \<Rightarrow> (Some (OpenImageFailed e), i, c, tr1)
           | None \<Rightarrow>
               (case perform E (Truncate (ImageName i) (size64 i)) tr1 of
                  (r2, tr2) \<Rightarrow>
                    (case resp_err r2 of
                       Some e \<Rightarrow> (Some (ResizeImageFailed e), i, c, tr2)
                     | None \<Rightarrow>
                         (case perform E (CloseFile (ImageName i)) tr2 of
                            (r3, tr3) \<Rightarrow>
                              (case perform E (ExecOutput [''losetup'', ''-f'', ''--show'', ImageName i]) tr3 of
                                 (r4, tr4) \<Rightarrow>
                                   (case resp_err r4 of
                                      Some e \<Rightarrow> (Some LoopSetupFailed, i, c, tr4)
                                    | None \<Rightarrow>
                                        (None, i\<lparr>usingLoop := True\<rparr>,
                                         c\<lparr>Image := TrimSpace G (resp_out r4)\<rparr>, tr4))))))))"

section \<open>Run\<close>

text \<open>
  \<open>formatPartition\<close>: the value returned by \<open>debos.Command{}.Run(label, cmdline...)\<close> is
  not read; only the failure of \<open>blkid\<close> is returned.
\<close>

definition formatPartition ::
  "env \<Rightarrow> golib \<Rightarrow> Partition \<Rightarrow> DebosContext \<Rightarrow> call list
     \<Rightarrow> error option \<times> Partition \<times> call list" where
  "formatPartition E G p c tr =
     (let label = ''Formatting partition '' @ show_int (number p)
      in case getPartitionDevice (number p) c of
           None \<Rightarrow> (Some Panic, p, tr)
         | Some path \<Rightarrow>
             (let cmdline = (if FS p = ''fat32'' then [''mkfs.vfat'', ''-n'', Name p]
                             else [''mkfs.'' @ FS p, ''-L'', Name p]) @ [path]
              in case perform E (CommandRun label cmdline) tr of
                   (r1, tr1) \<Rightarrow>
                     (case perform E (ExecOutput [''blkid'', ''-o'', ''value'', ''-s'', ''UUID'',
                                                  ''-p'', ''-c'', ''none'', path]) tr1 of
                        (r2, tr2) \<Rightarrow>
                          (case resp_err r2 of
                             Some e \<Rightarrow> (Some (FailedToGetUUID e), p, tr2)
                           | None \<Rightarrow> (None, p\<lparr>FSUUID := TrimSpace G (resp_out r2)\<rparr>, tr2)))))"

text \<open>The loop over \<open>p.Flags\<close>.\<close>

fun set_flags :: "env \<Rightarrow> DebosContext \<Rightarrow> Partition \<Rightarrow> string list \<Rightarrow> call list
     \<Rightarrow> error option \<times> call list" where
  "set_flags E c p [] tr = (None, tr)"
| "set_flags E c p (flag # flags) tr =
     (case perform E (CommandRun ''parted''
                        [''parted'', ''-s'', Image c, ''set'', show_int (number p), flag, ''on'']) tr of
        (r, tr1) \<Rightarrow>
          (case resp_err r of
             Some e \<Rightarrow> (Some (External e), tr1)
           | None \<Rightarrow> set_flags E c p flags tr1))"

text \<open>
  The loop over the partitions: each round works on \<open>&i.Partitions[idx]\<close> and writes
  only that element.
\<close>

fun run_partitions :: "env \<Rightarrow> golib \<Rightarrow> string \<Rightarrow> DebosContext \<Rightarrow> Partition list \<Rightarrow> call list
     \<Rightarrow> error option \<times> Partition list \<times> call list" where
  "run_partitions E G ptype c [] tr = (None, [], tr)"
| "run_partitions E G ptype c (p # ps) tr =
     (let name = (if ptype = ''gpt'' then Name p else ''primary'')
      in case perform E (CommandRun ''parted''
                           [''parted'', ''-a'', ''none'', ''-s'', Image c, ''mkpart'',
                            name, FS p, Start p, End p]) tr of
           (r, tr1) \<Rightarrow>
             (case resp_err r of
                Some e \<Rightarrow> (Some (External e), p # ps, tr1)
              | None \<Rightarrow>
                  (case set_flags E c p (Flags p) tr1 of
                     (Some e, tr2) \<Rightarrow> (Some e, p # ps, tr2)
                   | (None, tr2) \<Rightarrow>
                       (case formatPartition E G p c tr2 of
                          (Some e, p', tr3) \<Rightarrow> (Some e, p' # ps, tr3)
                        | (None, p', tr3) \<Rightarrow>
                            (case run_partitions E G ptype c ps tr3 of
                               (e, ps', tr4) \<Rightarrow> (e, p' # ps', tr4))))))"

text \<open>One round of the loop over the mounts, and the loop.\<close>

definition mount_one :: "env \<Rightarrow> golib \<Rightarrow> Partition list \<Rightarrow> DebosContext \<Rightarrow> Mountpoint \<Rightarrow> call list
     \<Rightarrow> error option \<times> call list" where
  "mount_one E G ps c m tr =
     (case deref ps (part m) of
        None \<Rightarrow> (Some Panic, tr)
      | Some p \<Rightarrow>
          (case getPartitionDevice (number p) c of
             None \<Rightarrow> (Some Panic, tr)
           | Some dev \<Rightarrow>
               (let mntpath = path_Join G (ImageMntDir c) (Mountpoint m)
                in case perform E (MkdirAll mntpath) tr of
                     (r1, tr1) \<Rightarrow>
                       (let fs = (if FS p = ''fat32'' then ''vfat'' else FS p)
                        in case perform E (Mount dev mntpath fs) tr1 of
                             (r2, tr2) \<Rightarrow>
                               (case resp_err r2 of
                                  Some e \<Rightarrow> (Some (MountFailed (Name p) e), tr2)
                                | None \<Rightarrow> (None, tr2))))))"

fun mount_all :: "env \<Rightarrow> golib \<Rightarrow> Partition list \<Rightarrow> DebosContext \<Rightarrow> Mountpoint list \<Rightarrow> call list
     \<Rightarrow> error option \<times> call list" where
  "mount_all E G ps c [] tr = (None, tr)"
| "mount_all E G ps c (m # ms) tr =
     (case mount_one E G ps c m tr of
        (Some e, tr1) \<Rightarrow> (Some e, tr1)
      | (None, tr1) \<Rightarrow> mount_all E G ps c ms tr1)"

text \<open>
  \<open>Run\<close> has a value receiver too; what it writes, it writes through pointers into the
  partition array. The action in the result is the receiver copy when the method returns.
  \<open>LogStart\<close> only logs and is left out.
\<close>

definition Run ::
  "env \<Rightarrow> golib \<Rightarrow> ImagePartitionAction \<Rightarrow> DebosContext \<Rightarrow> call list
     \<Rightarrow> error option \<times> ImagePartitionAction \<times> DebosContext \<times> call list" where
  "Run E G i c tr =
     (case perform E (CommandRun ''parted''
                        [''parted'', ''-s'', Image c, ''mklabel'', PartitionType i]) tr of
        (r, tr1) \<Rightarrow>
          (case resp_err r of
             Some e \<Rightarrow> (Some (External e), i, c, tr1)
           | None \<Rightarrow>
               (case run_partitions E G (PartitionType i) c (Partitions i) tr1 of
                  (Some e, ps, tr2) \<Rightarrow> (Some e, i\<lparr>Partitions := ps\<rparr>, c, tr2)
                | (None, ps, tr2) \<Rightarrow>
                    (let i1 = i\<lparr>Partitions := ps\<rparr>;
                         c1 = c\<lparr>ImageMntDir := path_Join G (Scratchdir c) ''mnt''\<rparr>
                     in case perform E (MkdirAll (ImageMntDir c1)) tr2 of
                          (r3, tr3) \<Rightarrow>
                            (case mount_all E G ps c1 (Mountpoints i1) tr3 of
                               (Some e, tr4) \<Rightarrow> (Some e, i1, c1, tr4)
                             | (None, tr4) \<Rightarrow>
                                 (case generateFSTab i1 c1 of
                                    (Some e, c2) \<Rightarrow> (Some e, i1, c2, tr4)
                                  | (None, c2) \<Rightarrow>
                                      (case generateKernelRoot i1 c2 of
                                         (Some e, c3) \<Rightarrow> (Some e, i1, c3, tr4)
                                       | (None, c3) \<Rightarrow> (None, i1, c3, tr4))))))))"

section \<open>Cleanup\<close>

text \<open>
  The loop \<open>for idx := len(i.Mountpoints) - 1; idx >= 0; idx--\<close>, counted by \<open>idx + 1\<close>.
  Neither the result of \<open>syscall.Unmount\<close> nor that of \<open>losetup -d\<close> is read.
\<close>

fun unmount_from :: "env \<Rightarrow> golib \<Rightarrow> DebosContext \<Rightarrow> Mountpoint list \<Rightarrow> nat \<Rightarrow> call list \<Rightarrow> call list" where
  "unmount_from E G c ms 0 tr = tr"
| "unmount_from E G c ms (Suc idx) tr =
     (let m = ms ! idx;
          mntpath = path_Join G (ImageMntDir c) (Mountpoint m)
      in case perform E (Unmount mntpath) tr of
           (r, tr1) \<Rightarrow> unmount_from E G c ms idx tr1)"

definition Cleanup ::
  "env \<Rightarrow> golib \<Rightarrow> ImagePartitionAction \<Rightarrow> DebosContext \<Rightarrow> call list \<Rightarrow> error option \<times> call list" where
  "Cleanup E G i c tr =
     (let tr1 = unmount_from E G c (Mountpoints i) (length (Mountpoints i)) tr
      in if usingLoop i
         then (case perform E (ExecRun [''losetup'', ''-d'', Image c]) tr1 of
                 (r, tr2) \<Rightarrow> (None, tr2))
         else (None, tr1))"

section \<open>The driver, for a recipe whose one action is an image-partition action\<close>

text \<open>
  The driver holds each action behind a pointer. A method with a value receiver works on
  a copy of the struct: the caller sees what was written into the backing arrays of the
  slices (no method replaces a slice), and none of the copy's other fields.
\<close>

definition after_value_call :: "ImagePartitionAction \<Rightarrow> ImagePartitionAction \<Rightarrow> ImagePartitionAction" where
  "after_value_call a i' = a\<lparr>Partitions := Partitions i', Mountpoints := Mountpoints i'\<rparr>"

text \<open>
  The phases after \<open>Verify\<close> when the build runs on the host without a sandbox
  (\<open>main\<close>: \<open>PreNoMachine\<close>, \<open>Run\<close>, \<open>Cleanup\<close>), and when it runs inside the sandbox
  (\<open>Run\<close>, \<open>Cleanup\<close>). \<open>bailOnError\<close> ends the process at the first error.
\<close>

definition phases_in_machine ::
  "env \<Rightarrow> golib \<Rightarrow> ImagePartitionAction \<Rightarrow> DebosContext \<Rightarrow> call list
     \<Rightarrow> error option \<times> ImagePartitionAction \<times> DebosContext \<times> call list" where
  "phases_in_machine E G a c tr =
     (case Run E G a c tr of
        (Some e, i1, c1, tr1) \<Rightarrow> (Some e, after_value_call a i1, c1, tr1)
      | (None, i1, c1, tr1) \<Rightarrow>
          (let a1 = after_value_call a i1
           in case Cleanup E G a1 c1 tr1 of
                (e, tr2) \<Rightarrow> (e, a1, c1, tr2)))"

definition build_in_machine ::
  "env \<Rightarrow> golib \<Rightarrow> ImagePartitionAction \<Rightarrow> DebosContext \<Rightarrow> call list
     \<Rightarrow> error option \<times> ImagePartitionAction \<times> DebosContext \<times> call list" where
  "build_in_machine E G a c tr =
     (case Verify G a of
        (Some e, a1) \<Rightarrow> (Some e, a1, c, tr)
      | (None, a1) \<Rightarrow> phases_in_machine E G a1 c tr)"

definition build_host ::
  "env \<Rightarrow> golib \<Rightarrow> ImagePartitionAction \<Rightarrow> DebosContext \<Rightarrow> call list
     \<Rightarrow> error option \<times> ImagePartitionAction \<times> DebosContext \<times> call list" where
  "build_host E G a c tr =
     (case Verify G a of
        (Some e, a1) \<Rightarrow> (Some e, a1, c, tr)
      | (None, a1) \<Rightarrow>
          (case PreNoMachine E G a1 c tr of
             (Some e, i2, c2, tr2) \<Rightarrow> (Some e, after_value_call a1 i2, c2, tr2)
           | (None, i2, c2, tr2) \<Rightarrow> phases_in_machine E G (after_value_call a1 i2) c2 tr2))"

section \<open>Definitions used to state the properties\<close>

text \<open>
  The filesystem alias and the fstab line as the specification words them: the alias
  \<open>fat32\<close> stands for \<open>vfat\<close>, and a line is
  \<open>UUID=<uuid>\t<mountpoint>\t<fs>\t<options>\t0\t0\n\<close> with the options being
  \<open>defaults\<close> followed by the configured ones, joined by commas.
\<close>

definition fs_alias :: "string \<Rightarrow> string" where
  "fs_alias fs = (if fs = ''fat32'' then ''vfat'' else fs)"

definition spec_fstab_line :: "string \<Rightarrow> string \<Rightarrow> string \<Rightarrow> string list \<Rightarrow> string" where
  "spec_fstab_line uuid mountpoint fs opts =
     ''UUID='' @ uuid @ tab @ mountpoint @ tab @ fs @ tab
       @ join_strs (''defaults'' # opts) '','' @ tab @ ''0'' @ tab @ ''0'' @ newline"

text \<open>The partition a mount points at, and the state in which every mount points at one.\<close>

definition mounted :: "ImagePartitionAction \<Rightarrow> Mountpoint \<Rightarrow> Partition" where
  "mounted i m = the (deref (Partitions i) (part m))"

definition mounts_resolved :: "ImagePartitionAction \<Rightarrow> bool" where
  "mounts_resolved i = list_all (\<lambda>m. deref (Partitions i) (part m) \<noteq> None) (Mountpoints i)"

text \<open>A partition with the four fields that \<open>Verify\<close> requires.\<close>

definition well_formed :: "Partition \<Rightarrow> bool" where
  "well_formed p = (Name p \<noteq> [] \<and> Start p \<noteq> [] \<and> End p \<noteq> [] \<and> FS p \<noteq> [])"

text \<open>How many declared partitions carry a name.\<close>

fun count_named :: "string \<Rightarrow> Partition list \<Rightarrow> nat" where
  "count_named nm [] = 0"
| "count_named nm (p # ps) = (if Name p = nm then Suc (count_named nm ps) else count_named nm ps)"

text \<open>
  Readings of a list of calls: the filesystem types passed to \<open>mount\<close>, the programs of
  the commands run under a \<open>Formatting partition\<close> label, and the arguments of the
  processes started with \<open>exec.Command(...).Run()\<close>.
\<close>

fun mount_fstypes :: "call list \<Rightarrow> string list" where
  "mount_fstypes [] = []"
| "mount_fstypes (Mount dev dir fs # ks) = fs # mount_fstypes ks"
| "mount_fstypes (k # ks) = mount_fstypes ks"

fun format_programs :: "call list \<Rightarrow> string list" where
  "format_programs [] = []"
| "format_programs (CommandRun label cmdline # ks) =
     (if has_prefix label ''Formatting partition '' then take 1 cmdline @ format_programs ks
      else format_programs ks)"
| "format_programs (k # ks) = format_programs ks"

fun exec_runs :: "call list \<Rightarrow> string list list" where
  "exec_runs [] = []"
| "exec_runs (ExecRun args # ks) = args # exec_runs ks"
| "exec_runs (k # ks) = exec_runs ks"

definition calls_of :: "'a \<times> 'b \<times> 'c \<times> call list \<Rightarrow> call list" where
  "calls_of r = snd (snd (snd r))"

section \<open>Sample inputs\<close>

text \<open>
  Instances of the parameters, for evaluating the model: a library whose \<open>TrimSpace\<close>
  strips ASCII white space, whose \<open>path.Join\<close> is right for a clean directory and a
  clean relative or absolute element, and whose size parser knows \<open>1GB\<close>; a host on
  which every call succeeds, \<open>blkid\<close> printing a UUID derived from the device path; and
  a host on which every formatting command fails and everything else succeeds.
\<close>

definition is_space :: "char \<Rightarrow> bool" where
  "is_space ch = (ch \<in> set [CHR 0x09, CHR 0x0A, CHR 0x0B, CHR 0x0C, CHR 0x0D, CHR '' ''])"

definition example_lib :: golib where
  "example_lib =
     \<lparr>TrimSpace = (\<lambda>s. rev (dropWhile is_space (rev (dropWhile is_space s)))),
      path_Join = (\<lambda>d e. if e = ''/'' then d else if has_prefix e ''/'' then d @ e else d @ ''/'' @ e),
      FromHumanSize = (\<lambda>s. if s = ''1GB'' then Some 1000000000 else None)\<rparr>"

definition example_output :: "call \<Rightarrow> string" where
  "example_output k =
     (case k of
        ExecOutput args \<Rightarrow>
          (if take 1 args = [''blkid''] then ''uuid-of-'' @ last args else ''/dev/loop0'') @ newline
      | CreateImage nm sz \<Rightarrow> ''/dev/disk/by-id/virtio-fakedisk-0''
      | _ \<Rightarrow> [])"

definition example_env :: env where
  "example_env tr k = \<lparr>resp_err = None, resp_out = example_output k\<rparr>"

definition mkfs_fails_env :: env where
  "mkfs_fails_env tr k =
     \<lparr>resp_err = (case k of
                    CommandRun label cmdline \<Rightarrow>
                      (if has_prefix label ''Formatting partition '' then Some ''exit status 1'' else None)
                  | _ \<Rightarrow> None),
      resp_out = example_output k\<rparr>"

definition example_context :: DebosContext where
  "example_context =
     \<lparr>Scratchdir = ''/scratch'', Rootdir = ''/scratch/root'', Artifactdir = ''/out'',
      Image = [], ImageMntDir = [], ImageFSTab = [], ImageKernelRoot = []\<rparr>"

text \<open>The layout example of the action's documentation (Raspberry Pi 3).\<close>

definition rpi3_action :: ImagePartitionAction where
  "rpi3_action =
     \<lparr>ImageName = ''debian-rpi3.img'', ImageSize = ''1GB'', PartitionType = ''msdos'',
      Partitions =
        [\<lparr>number = 0, Name = ''firmware'', Start = ''0%'', End = ''64MB'', FS = ''fat32'',
          Flags = [], FSUUID = []\<rparr>,
         \<lparr>number = 0, Name = ''root'', Start = ''64MB'', End = ''100%'', FS = ''ext4'',
          Flags = [''boot''], FSUUID = []\<rparr>],
      Mountpoints =
        [\<lparr>Mountpoint = ''/'', Partition = ''root'', Options = [], part = None\<rparr>,
         \<lparr>Mountpoint = ''/boot/firmware'', Partition = ''firmware'',
          Options = [''x-systemd.automount''], part = None\<rparr>],
      size64 = 0, usingLoop = False\<rparr>"

text \<open>A recipe in which two partitions carry the same name.\<close>

definition dup_names_action :: ImagePartitionAction where
  "dup_names_action =
     \<lparr>ImageName = ''dup.img'', ImageSize = ''1GB'', PartitionType = ''gpt'',
      Partitions =
        [\<lparr>number = 0, Name = ''data'', Start = ''0%'', End = ''50%'', FS = ''ext4'',
          Flags = [], FSUUID = []\<rparr>,
         \<lparr>number = 0, Name = ''data'', Start = ''50%'', End = ''100%'', FS = ''ext4'',
          Flags = [], FSUUID = []\<rparr>],
      Mountpoints =
        [\<lparr>Mountpoint = ''/'', Partition = ''data'', Options = [], part = None\<rparr>],
      size64 = 0, usingLoop = False\<rparr>"

text \<open>The example after \<open>Verify\<close>, run in the sandbox on the image \<open>/dev/vda\<close>.\<close>

definition rpi3_context :: DebosContext where
  "rpi3_context = example_context\<lparr>Image := ''/dev/vda''\<rparr>"

definition rpi3_run :: "error option \<times> ImagePartitionAction \<times> DebosContext \<times> call list" where
  "rpi3_run = Run example_env example_lib (snd (Verify example_lib rpi3_action)) rpi3_context []"

section \<open>What Cleanup does\<close>

lemma perform_eq: "perform E k tr = (E tr k, tr @ [k])"
  by (simp add: perform_def)

lemma unmount_from_calls:
  "n \<le> length ms \<Longrightarrow>
   unmount_from E G c ms n tr =
     tr @ map (\<lambda>m. Unmount (path_Join G (ImageMntDir c) (Mountpoint m))) (rev (take n ms))"
proof (induction n arbitrary: tr)
  case 0
  then show ?case by simp
next
  case (Suc n)
  then have n: "n < length ms" by simp
  have "take (Suc n) ms = take n ms @ [ms ! n]"
    using n by (simp add: take_Suc_conv_app_nth)
  with Suc show ?case
    by (simp add: perform_eq Let_def)
qed

text \<open>
  C10. \<open>Cleanup\<close> returns nil in every state and on every host: whatever the unmount
  calls and the loop detach answer, no error comes out of this phase.
\<close>

theorem Cleanup_returns_nil: "fst (Cleanup E G i c tr) = None"
  by (simp add: Cleanup_def perform_eq Let_def)

text \<open>
  C8. The calls \<open>Cleanup\<close> adds are the unmounts of the mount points in the reverse of
  their declaration order (the last declared first, the first declared last), followed by
  the loop detach when \<open>usingLoop\<close> is set.
\<close>

theorem Cleanup_unmounts_in_reverse:
  "snd (Cleanup E G i c tr) =
     tr @ map (\<lambda>m. Unmount (path_Join G (ImageMntDir c) (Mountpoint m))) (rev (Mountpoints i))
        @ (if usingLoop i then [ExecRun [''losetup'', ''-d'', Image c]] else [])"
  by (simp add: Cleanup_def perform_eq Let_def unmount_from_calls)

section \<open>Verify numbers the partitions\<close>

lemma verify_partitions_ok:
  "verify_partitions num ps = (None, ps') \<Longrightarrow>
   length ps' = length ps \<and> (\<forall>k<length ps. ps' ! k = (ps ! k)\<lparr>number := num + int k\<rparr>)"
proof (induction ps arbitrary: num ps')
  case Nil
  then show ?case by simp
next
  case (Cons p ps)
  from Cons.prems obtain qs where
    rec: "verify_partitions (num + 1) ps = (None, qs)" and
    ps': "ps' = p\<lparr>number := num\<rparr> # qs"
    by (auto simp: Let_def split: if_splits prod.splits)
  from Cons.IH [OF rec] have
    len: "length qs = length ps" and
    nth: "\<forall>k<length ps. qs ! k = (ps ! k)\<lparr>number := num + 1 + int k\<rparr>"
    by simp_all
  show ?case
  proof (intro conjI allI impI)
    show "length ps' = length (p # ps)" using ps' len by simp
  next
    fix k assume "k < length (p # ps)"
    then show "ps' ! k = ((p # ps) ! k)\<lparr>number := num + int k\<rparr>"
      using ps' nth by (cases k) (simp_all add: algebra_simps)
  qed
qed

lemma Verify_success_D:
  assumes "Verify G a = (None, a')"
  shows "\<exists>ps ms sz. verify_partitions 1 (Partitions a) = (None, ps) \<and>
           resolve_mounts ps (Mountpoints a) = (None, ms) \<and>
           FromHumanSize G (ImageSize a) = Some sz \<and>
           a' = a\<lparr>Partitions := ps, Mountpoints := ms, size64 := sz\<rparr>"
  using assms
  by (auto simp: Verify_def split: option.splits prod.splits)

lemma formatPartition_number:
  "formatPartition E G p c tr = (e, p', tr') \<Longrightarrow> number p' = number p"
  by (auto simp: formatPartition_def perform_eq Let_def split: option.splits)

lemma run_partitions_numbers:
  "run_partitions E G pt c ps tr = (e, ps', tr') \<Longrightarrow> map number ps' = map number ps"
proof (induction ps arbitrary: tr e ps' tr')
  case Nil
  then show ?case by simp
next
  case (Cons p ps)
  show ?case
    using Cons.prems
    by (auto simp: perform_eq Let_def split: option.splits prod.splits
             dest: formatPartition_number Cons.IH)
qed

lemma Run_numbers:
  "map number (Partitions (fst (snd (Run E G i c tr)))) = map number (Partitions i)"
  by (auto simp: Run_def perform_eq Let_def split: option.splits prod.splits
           dest: run_partitions_numbers)

lemma PreNoMachine_partitions:
  "Partitions (fst (snd (PreNoMachine E G i c tr))) = Partitions i"
  by (simp add: PreNoMachine_def perform_eq split: option.splits)

lemma phases_in_machine_numbers:
  "map number (Partitions (fst (snd (phases_in_machine E G a c tr)))) = map number (Partitions a)"
proof -
  obtain e i1 c1 tr1 where r: "Run E G a c tr = (e, i1, c1, tr1)"
    by (cases "Run E G a c tr") auto
  have "map number (Partitions i1) = map number (Partitions a)"
    using Run_numbers [of E G a c tr] r by simp
  then show ?thesis
    using r
    by (cases e) (simp_all add: phases_in_machine_def after_value_call_def Let_def split: prod.splits)
qed

lemma build_in_machine_numbers:
  "Verify G a = (None, a') \<Longrightarrow>
   map number (Partitions (fst (snd (build_in_machine E G a c tr)))) = map number (Partitions a')"
  by (simp add: build_in_machine_def phases_in_machine_numbers)

lemma build_host_numbers:
  assumes "Verify G a = (None, a')"
  shows "map number (Partitions (fst (snd (build_host E G a c tr)))) = map number (Partitions a')"
proof -
  obtain e i2 c2 tr2 where r: "PreNoMachine E G a' c tr = (e, i2, c2, tr2)"
    by (cases "PreNoMachine E G a' c tr") auto
  have p: "Partitions i2 = Partitions a'"
    using PreNoMachine_partitions [of E G a' c tr] r by simp
  show ?thesis
    using assms r p
    by (cases e) (simp_all add: build_host_def after_value_call_def phases_in_machine_numbers)
qed

text \<open>
  C9. When \<open>Verify\<close> succeeds, the partitions are the declared ones, in their order, the
  k-th carrying the number k (so the numbers are 1..N); and no later phase changes a
  number: at the end of a build on the host and of a build in the sandbox, whatever the
  host answers, the numbers are those \<open>Verify\<close> assigned.
\<close>

theorem Verify_numbers_partitions:
  assumes "Verify G a = (None, a')"
  shows "length (Partitions a') = length (Partitions a) \<and>
         (\<forall>k<length (Partitions a). Partitions a' ! k = (Partitions a ! k)\<lparr>number := int k + 1\<rparr>) \<and>
         map number (Partitions a') = map int [1..<Suc (length (Partitions a))] \<and>
         (\<forall>E c tr. map number (Partitions (fst (snd (Run E G a' c tr)))) = map number (Partitions a')) \<and>
         (\<forall>E c tr. map number (Partitions (fst (snd (build_host E G a c tr)))) = map number (Partitions a')) \<and>
         (\<forall>E c tr. map number (Partitions (fst (snd (build_in_machine E G a c tr)))) = map number (Partitions a'))"
proof -
  from Verify_success_D [OF assms] obtain ps ms sz where
    vp: "verify_partitions 1 (Partitions a) = (None, ps)" and
    a': "a' = a\<lparr>Partitions := ps, Mountpoints := ms, size64 := sz\<rparr>"
    by blast
  from verify_partitions_ok [OF vp] have
    len: "length ps = length (Partitions a)" and
    nth: "\<forall>k<length (Partitions a). ps ! k = (Partitions a ! k)\<lparr>number := 1 + int k\<rparr>"
    by simp_all
  have nums: "map number ps = map int [1..<Suc (length (Partitions a))]"
  proof (rule nth_equalityI)
    show "length (map number ps) = length (map int [1..<Suc (length (Partitions a))])"
      using len by (simp del: upt_Suc)
  next
    fix k assume "k < length (map number ps)"
    then have k: "k < length (Partitions a)" using len by simp
    then have "number (ps ! k) = 1 + int k" using nth by simp
    moreover have "map int [1..<Suc (length (Partitions a))] ! k = int (1 + k)"
      using k by (simp del: upt_Suc)
    ultimately show "map number ps ! k = map int [1..<Suc (length (Partitions a))] ! k"
      using k len by simp
  qed
  have P: "Partitions a' = ps" using a' by simp
  show ?thesis
    unfolding P
    using len nth nums build_host_numbers [OF assms] build_in_machine_numbers [OF assms]
      Run_numbers [of _ G a'] P
    by (simp add: add.commute)
qed

theorem Verify_numbers_partitions_witness:
  "Verify example_lib rpi3_action = (None, snd (Verify example_lib rpi3_action)) \<and>
   map number (Partitions (snd (Verify example_lib rpi3_action))) = [1, 2]"
proof -
  have "fst (Verify example_lib rpi3_action) = None"
    by code_simp
  then have h: "Verify example_lib rpi3_action = (None, snd (Verify example_lib rpi3_action))"
    by (simp add: prod_eq_iff)
  have n: "length (Partitions rpi3_action) = 2"
    by (simp add: rpi3_action_def)
  have "map int [1..<Suc 2] = [1, 2]"
    by code_simp
  with Verify_numbers_partitions [OF h] n h show ?thesis
    by simp
qed

section \<open>Generated boot metadata\<close>


lemma fstab_loop_ok:
  "\<forall>m\<in>set ms. \<exists>p. deref ps (part m) = Some p \<and> FSUUID p \<noteq> [] \<Longrightarrow>
   fstab_loop ps ms buf =
     (None, buf @ concat (map (\<lambda>m. spec_fstab_line (FSUUID (the (deref ps (part m)))) (Mountpoint m)
                                   (fs_alias (FS (the (deref ps (part m))))) (Options m)) ms))"
proof (induction ms arbitrary: buf)
  case Nil
  then show ?case by simp
next
  case (Cons m ms)
  from Cons.prems obtain p where p: "deref ps (part m) = Some p" "FSUUID p \<noteq> []"
    by auto
  from Cons.prems have rest: "\<forall>m\<in>set ms. \<exists>p. deref ps (part m) = Some p \<and> FSUUID p \<noteq> []"
    by simp
  show ?case
    using p Cons.IH [OF rest]
    by (simp add: Let_def spec_fstab_line_def fs_alias_def)
qed

lemma fstab_loop_None_D:
  "fstab_loop ps ms buf = (None, buf') \<Longrightarrow>
   \<forall>m\<in>set ms. \<exists>p. deref ps (part m) = Some p \<and> FSUUID p \<noteq> []"
proof (induction ms arbitrary: buf)
  case Nil
  then show ?case by simp
next
  case (Cons m ms)
  then show ?case
    by (auto simp: Let_def split: option.splits if_splits)
qed

lemma fstab_loop_error_iff:
  assumes "\<forall>m\<in>set ms. deref ps (part m) \<noteq> None"
  shows "fst (fstab_loop ps ms buf) \<noteq> None \<longleftrightarrow>
         (\<exists>m\<in>set ms. FSUUID (the (deref ps (part m))) = [])"
proof
  assume err: "fst (fstab_loop ps ms buf) \<noteq> None"
  show "\<exists>m\<in>set ms. FSUUID (the (deref ps (part m))) = []"
  proof (rule ccontr)
    assume "\<not> (\<exists>m\<in>set ms. FSUUID (the (deref ps (part m))) = [])"
    with assms have "\<forall>m\<in>set ms. \<exists>p. deref ps (part m) = Some p \<and> FSUUID p \<noteq> []"
      by fastforce
    from fstab_loop_ok [OF this] err show False by simp
  qed
next
  assume "\<exists>m\<in>set ms. FSUUID (the (deref ps (part m))) = []"
  then obtain m where m: "m \<in> set ms" "FSUUID (the (deref ps (part m))) = []" by blast
  show "fst (fstab_loop ps ms buf) \<noteq> None"
  proof
    assume "fst (fstab_loop ps ms buf) = None"
    then have "fstab_loop ps ms buf = (None, snd (fstab_loop ps ms buf))"
      by (simp add: prod_eq_iff)
    from fstab_loop_None_D [OF this] m show False by fastforce
  qed
qed

subsection \<open>The loop of generateKernelRoot\<close>

lemma kernel_root_loop_result:
  "\<forall>m\<in>set ms. \<exists>p. deref ps (part m) = Some p \<and> FSUUID p \<noteq> [] \<Longrightarrow>
   kernel_root_loop ps ms c =
     (None, case find (\<lambda>m. Mountpoint m = ''/'') ms of
              None \<Rightarrow> c
            | Some m \<Rightarrow> c\<lparr>ImageKernelRoot := ''root=UUID='' @ FSUUID (the (deref ps (part m)))\<rparr>)"
  by (induction ms) auto

lemma kernel_root_loop_no_root:
  "\<forall>m\<in>set ms. Mountpoint m \<noteq> ''/'' \<Longrightarrow> kernel_root_loop ps ms c = (None, c)"
  by (induction ms) auto

lemma kernel_root_loop_fstab:
  "ImageFSTab (snd (kernel_root_loop ps ms c)) = ImageFSTab c"
  by (induction ms) (auto split: option.splits)

subsection \<open>Run, taken apart\<close>

lemma run_partitions_length:
  "run_partitions E G pt c ps tr = (e, ps', tr') \<Longrightarrow> length ps' = length ps"
proof (induction ps arbitrary: tr e ps' tr')
  case Nil
  then show ?case by simp
next
  case (Cons p ps)
  show ?case
    using Cons.prems
    by (auto simp: perform_eq Let_def split: option.splits prod.splits dest: Cons.IH)
qed

lemma Run_success_E:
  assumes "Run E G i c tr = (None, i', c', tr')"
  obtains ps tr2 c2 where
    "run_partitions E G (PartitionType i) c (Partitions i)
       (tr @ [CommandRun ''parted'' [''parted'', ''-s'', Image c, ''mklabel'', PartitionType i]])
       = (None, ps, tr2)"
    "i' = i\<lparr>Partitions := ps\<rparr>"
    "mount_all E G ps (c\<lparr>ImageMntDir := path_Join G (Scratchdir c) ''mnt''\<rparr>) (Mountpoints i)
       (tr2 @ [MkdirAll (path_Join G (Scratchdir c) ''mnt'')]) = (None, tr')"
    "generateFSTab i' (c\<lparr>ImageMntDir := path_Join G (Scratchdir c) ''mnt''\<rparr>) = (None, c2)"
    "generateKernelRoot i' c2 = (None, c')"
  using assms
  by (auto simp: Run_def perform_eq Let_def split: option.splits prod.splits)

lemma mounts_resolved_iff:
  "mounts_resolved i \<longleftrightarrow> (\<forall>m\<in>set (Mountpoints i). deref (Partitions i) (part m) \<noteq> None)"
  by (simp add: mounts_resolved_def list_all_iff)

lemma generateKernelRoot_fstab:
  "generateKernelRoot i c = (e, c') \<Longrightarrow> ImageFSTab c' = ImageFSTab c"
  using kernel_root_loop_fstab [of "Partitions i" "Mountpoints i" c]
  by (simp add: generateKernelRoot_def)

lemma generateFSTab_success_D:
  assumes "generateFSTab i c = (None, c')"
  shows "\<forall>m\<in>set (Mountpoints i). \<exists>p. deref (Partitions i) (part m) = Some p \<and> FSUUID p \<noteq> []"
proof -
  from assms have "fstab_loop (Partitions i) (Mountpoints i) [] =
      (None, snd (fstab_loop (Partitions i) (Mountpoints i) []))"
    by (auto simp: generateFSTab_def split: prod.splits)
  from fstab_loop_None_D [OF this] show ?thesis .
qed

lemma generateFSTab_ok:
  assumes "\<forall>m\<in>set (Mountpoints i). \<exists>p. deref (Partitions i) (part m) = Some p \<and> FSUUID p \<noteq> []"
  shows "generateFSTab i c =
     (None, c\<lparr>ImageFSTab := concat (map (\<lambda>m. spec_fstab_line (FSUUID (mounted i m)) (Mountpoint m)
                                          (fs_alias (FS (mounted i m))) (Options m)) (Mountpoints i))\<rparr>)"
  using fstab_loop_ok [OF assms, of "[]"]
  by (simp add: generateFSTab_def mounted_def)

text \<open>
  C5. With every mount resolved, \<open>generateFSTab\<close> returns an error exactly when some
  mount's partition has an empty UUID. Otherwise the buffer holds one line per mount, in
  declaration order, each \<open>UUID=<uuid>\t<mountpoint>\t<fs>\t<options>\t0\t0\n\<close>, the
  options being \<open>defaults\<close> and then the configured ones, joined by commas. After a
  successful \<open>Run\<close> every mounted partition has a UUID and the fstab in the context is
  that text.
\<close>

theorem generateFSTab_lines:
  "(mounts_resolved i \<longrightarrow>
      (fst (generateFSTab i c) \<noteq> None \<longleftrightarrow> (\<exists>m\<in>set (Mountpoints i). FSUUID (mounted i m) = []))) \<and>
   (mounts_resolved i \<and> (\<forall>m\<in>set (Mountpoints i). FSUUID (mounted i m) \<noteq> []) \<longrightarrow>
      generateFSTab i c =
        (None, c\<lparr>ImageFSTab := concat (map (\<lambda>m. spec_fstab_line (FSUUID (mounted i m)) (Mountpoint m)
                                             (fs_alias (FS (mounted i m))) (Options m)) (Mountpoints i))\<rparr>)) \<and>
   (Run E G i c tr = (None, i', c', tr') \<longrightarrow>
      Mountpoints i' = Mountpoints i \<and>
      (\<forall>m\<in>set (Mountpoints i'). FSUUID (mounted i' m) \<noteq> []) \<and>
      ImageFSTab c' = concat (map (\<lambda>m. spec_fstab_line (FSUUID (mounted i' m)) (Mountpoint m)
                                         (fs_alias (FS (mounted i' m))) (Options m)) (Mountpoints i')))"
proof (intro conjI impI)
  assume "mounts_resolved i"
  then have r: "\<forall>m\<in>set (Mountpoints i). deref (Partitions i) (part m) \<noteq> None"
    by (simp add: mounts_resolved_iff)
  have "fst (generateFSTab i c) = fst (fstab_loop (Partitions i) (Mountpoints i) [])"
    by (simp add: generateFSTab_def split: prod.splits)
  then show "fst (generateFSTab i c) \<noteq> None \<longleftrightarrow> (\<exists>m\<in>set (Mountpoints i). FSUUID (mounted i m) = [])"
    using fstab_loop_error_iff [OF r, of "[]"] by (simp add: mounted_def)
next
  assume a: "mounts_resolved i \<and> (\<forall>m\<in>set (Mountpoints i). FSUUID (mounted i m) \<noteq> [])"
  have "\<forall>m\<in>set (Mountpoints i). \<exists>p. deref (Partitions i) (part m) = Some p \<and> FSUUID p \<noteq> []"
  proof
    fix m assume m: "m \<in> set (Mountpoints i)"
    with a obtain p where p: "deref (Partitions i) (part m) = Some p"
      by (auto simp: mounts_resolved_iff)
    from a m have "FSUUID (mounted i m) \<noteq> []" by simp
    with p have "FSUUID p \<noteq> []" by (simp add: mounted_def)
    with p show "\<exists>p. deref (Partitions i) (part m) = Some p \<and> FSUUID p \<noteq> []" by simp
  qed
  from generateFSTab_ok [OF this]
  show "generateFSTab i c =
        (None, c\<lparr>ImageFSTab := concat (map (\<lambda>m. spec_fstab_line (FSUUID (mounted i m)) (Mountpoint m)
                                             (fs_alias (FS (mounted i m))) (Options m)) (Mountpoints i))\<rparr>)" .
next
  assume run: "Run E G i c tr = (None, i', c', tr')"
  from run obtain ps c2 where
    i': "i' = i\<lparr>Partitions := ps\<rparr>" and
    ft: "generateFSTab i' (c\<lparr>ImageMntDir := path_Join G (Scratchdir c) ''mnt''\<rparr>) = (None, c2)" and
    kr: "generateKernelRoot i' c2 = (None, c')"
    by (rule Run_success_E)
  from generateFSTab_success_D [OF ft] have
    ok: "\<forall>m\<in>set (Mountpoints i'). \<exists>p. deref (Partitions i') (part m) = Some p \<and> FSUUID p \<noteq> []" .
  show "Mountpoints i' = Mountpoints i" using i' by simp
  show "\<forall>m\<in>set (Mountpoints i'). FSUUID (mounted i' m) \<noteq> []"
  proof
    fix m assume "m \<in> set (Mountpoints i')"
    with ok obtain p where "deref (Partitions i') (part m) = Some p" "FSUUID p \<noteq> []"
      by auto
    then show "FSUUID (mounted i' m) \<noteq> []"
      by (simp add: mounted_def)
  qed
  have "ImageFSTab c' = ImageFSTab c2"
    using generateKernelRoot_fstab [OF kr] .
  also have "\<dots> = concat (map (\<lambda>m. spec_fstab_line (FSUUID (mounted i' m)) (Mountpoint m)
                                         (fs_alias (FS (mounted i' m))) (Options m)) (Mountpoints i'))"
    using generateFSTab_ok [OF ok, of "c\<lparr>ImageMntDir := path_Join G (Scratchdir c) ''mnt''\<rparr>"] ft
    by auto
  finally show "ImageFSTab c' = concat (map (\<lambda>m. spec_fstab_line (FSUUID (mounted i' m)) (Mountpoint m)
                                         (fs_alias (FS (mounted i' m))) (Options m)) (Mountpoints i'))" .
qed

theorem generateFSTab_lines_witness:
  "fst rpi3_run = None \<and>
   mounts_resolved (fst (snd rpi3_run)) \<and>
   list_all (\<lambda>m. FSUUID (mounted (fst (snd rpi3_run)) m) \<noteq> []) (Mountpoints (fst (snd rpi3_run))) \<and>
   fst (generateFSTab (fst (snd rpi3_run)) rpi3_context) = None \<and>
   ImageFSTab (fst (snd (snd rpi3_run))) =
     ''UUID=uuid-of-/dev/vda2'' @ tab @ ''/'' @ tab @ ''ext4'' @ tab @ ''defaults'' @ tab @ ''0'' @ tab @ ''0'' @ newline
     @ ''UUID=uuid-of-/dev/vda1'' @ tab @ ''/boot/firmware'' @ tab @ ''vfat'' @ tab
     @ ''defaults,x-systemd.automount'' @ tab @ ''0'' @ tab @ ''0'' @ newline"
proof -
  have ok: "fst rpi3_run = None"
    by code_simp
  have res: "mounts_resolved (fst (snd rpi3_run))"
    by code_simp
  have uu: "list_all (\<lambda>m. FSUUID (mounted (fst (snd rpi3_run)) m) \<noteq> []) (Mountpoints (fst (snd rpi3_run)))"
    by code_simp
  have run: "Run example_env example_lib (snd (Verify example_lib rpi3_action)) rpi3_context []
               = (None, fst (snd rpi3_run), fst (snd (snd rpi3_run)), snd (snd (snd rpi3_run)))"
    using ok by (simp add: rpi3_run_def prod_eq_iff)
  have noerr: "fst (generateFSTab (fst (snd rpi3_run)) rpi3_context) = None"
    using generateFSTab_lines [where i = "fst (snd rpi3_run)" and c = rpi3_context] res uu
    by (simp add: list_all_iff)
  have "ImageFSTab (fst (snd (snd rpi3_run))) =
      concat (map (\<lambda>m. spec_fstab_line (FSUUID (mounted (fst (snd rpi3_run)) m)) (Mountpoint m)
                          (fs_alias (FS (mounted (fst (snd rpi3_run)) m))) (Options m))
                  (Mountpoints (fst (snd rpi3_run))))"
    by (rule generateFSTab_lines [where i = "snd (Verify example_lib rpi3_action)" and c = rpi3_context
          and E = example_env and G = example_lib and tr = "[]",
          THEN conjunct2, THEN conjunct2, THEN mp, OF run, THEN conjunct2, THEN conjunct2])
  also have "\<dots> = ''UUID=uuid-of-/dev/vda2'' @ tab @ ''/'' @ tab @ ''ext4'' @ tab @ ''defaults'' @ tab @ ''0'' @ tab @ ''0'' @ newline
     @ ''UUID=uuid-of-/dev/vda1'' @ tab @ ''/boot/firmware'' @ tab @ ''vfat'' @ tab
     @ ''defaults,x-systemd.automount'' @ tab @ ''0'' @ tab @ ''0'' @ newline"
    by code_simp
  finally show ?thesis
    using ok res uu noerr by simp
qed

section \<open>The kernel root parameter\<close>

lemma find_Some_D: "find P xs = Some x \<Longrightarrow> x \<in> set xs \<and> P x"
  by (induction xs) (auto split: if_splits)

lemma generateFSTab_kernel_root:
  "generateFSTab i c = (e, c') \<Longrightarrow> ImageKernelRoot c' = ImageKernelRoot c"
  by (auto simp: generateFSTab_def split: prod.splits)

lemma generateKernelRoot_after_fstab:
  assumes "generateFSTab i cp = (None, c)"
  shows "generateKernelRoot i c =
     (None, case find (\<lambda>m. Mountpoint m = ''/'') (Mountpoints i) of
              None \<Rightarrow> c
            | Some m \<Rightarrow> c\<lparr>ImageKernelRoot := ''root=UUID='' @ FSUUID (mounted i m)\<rparr>)"
  unfolding generateKernelRoot_def mounted_def
  by (rule kernel_root_loop_result [OF generateFSTab_success_D [OF assms]])

text \<open>
  C7. Called as \<open>Run\<close> calls it, after \<open>generateFSTab\<close> has returned nil,
  \<open>generateKernelRoot\<close> returns nil; it stores \<open>root=UUID=<uuid>\<close> with the UUID of the
  first mount whose path is \<open>/\<close> when there is one, and leaves the context as it was when
  there is none, so that a parameter unset before is set afterwards exactly when a mount
  with path \<open>/\<close> is declared. With no such mount it returns nil and changes nothing in
  any state. The context after a successful \<open>Run\<close> reads accordingly.
\<close>

theorem generateKernelRoot_root_mount:
  "(generateFSTab i cp = (None, c) \<longrightarrow>
      fst (generateKernelRoot i c) = None \<and>
      (case find (\<lambda>m. Mountpoint m = ''/'') (Mountpoints i) of
         None \<Rightarrow> snd (generateKernelRoot i c) = c
       | Some m \<Rightarrow> snd (generateKernelRoot i c) =
                    c\<lparr>ImageKernelRoot := ''root=UUID='' @ FSUUID (mounted i m)\<rparr>) \<and>
      (ImageKernelRoot c = [] \<longrightarrow>
         (ImageKernelRoot (snd (generateKernelRoot i c)) \<noteq> [] \<longleftrightarrow>
          (\<exists>m\<in>set (Mountpoints i). Mountpoint m = ''/'')))) \<and>
   ((\<forall>m\<in>set (Mountpoints i). Mountpoint m \<noteq> ''/'') \<longrightarrow> generateKernelRoot i c = (None, c)) \<and>
   (Run E G i c tr = (None, i', c', tr') \<longrightarrow>
      (case find (\<lambda>m. Mountpoint m = ''/'') (Mountpoints i) of
         None \<Rightarrow> ImageKernelRoot c' = ImageKernelRoot c
       | Some m \<Rightarrow> ImageKernelRoot c' = ''root=UUID='' @ FSUUID (mounted i' m)))"
proof (intro conjI impI)
  assume ft: "generateFSTab i cp = (None, c)"
  note kr = generateKernelRoot_after_fstab [OF ft]
  show "fst (generateKernelRoot i c) = None"
    using kr by simp
  show "case find (\<lambda>m. Mountpoint m = ''/'') (Mountpoints i) of
         None \<Rightarrow> snd (generateKernelRoot i c) = c
       | Some m \<Rightarrow> snd (generateKernelRoot i c) =
                    c\<lparr>ImageKernelRoot := ''root=UUID='' @ FSUUID (mounted i m)\<rparr>"
    using kr by (simp split: option.splits)
  assume unset: "ImageKernelRoot c = []"
  show "ImageKernelRoot (snd (generateKernelRoot i c)) \<noteq> [] \<longleftrightarrow>
        (\<exists>m\<in>set (Mountpoints i). Mountpoint m = ''/'')"
  proof (cases "find (\<lambda>m. Mountpoint m = ''/'') (Mountpoints i)")
    case None
    then have nex: "\<not> (\<exists>m\<in>set (Mountpoints i). Mountpoint m = ''/'')"
      by (simp add: find_None_iff)
    have "snd (generateKernelRoot i c) = c"
      using kr unfolding None by simp
    then have "ImageKernelRoot (snd (generateKernelRoot i c)) = []"
      using unset by simp
    with nex show ?thesis by blast
  next
    case (Some m)
    then have ex: "\<exists>m\<in>set (Mountpoints i). Mountpoint m = ''/''"
      using find_Some_D [of "\<lambda>m. Mountpoint m = ''/''" "Mountpoints i" m] by blast
    have "snd (generateKernelRoot i c) = c\<lparr>ImageKernelRoot := ''root=UUID='' @ FSUUID (mounted i m)\<rparr>"
      using kr unfolding Some by simp
    then have "ImageKernelRoot (snd (generateKernelRoot i c)) \<noteq> []"
      by simp
    with ex show ?thesis by blast
  qed
next
  assume "\<forall>m\<in>set (Mountpoints i). Mountpoint m \<noteq> ''/''"
  then show "generateKernelRoot i c = (None, c)"
    by (simp add: generateKernelRoot_def kernel_root_loop_no_root)
next
  assume run: "Run E G i c tr = (None, i', c', tr')"
  from run obtain ps c2 where
    i': "i' = i\<lparr>Partitions := ps\<rparr>" and
    ft: "generateFSTab i' (c\<lparr>ImageMntDir := path_Join G (Scratchdir c) ''mnt''\<rparr>) = (None, c2)" and
    kr: "generateKernelRoot i' c2 = (None, c')"
    by (rule Run_success_E)
  have c2: "ImageKernelRoot c2 = ImageKernelRoot c"
    using generateFSTab_kernel_root [OF ft] by simp
  have ms: "Mountpoints i' = Mountpoints i"
    using i' by simp
  show "case find (\<lambda>m. Mountpoint m = ''/'') (Mountpoints i) of
         None \<Rightarrow> ImageKernelRoot c' = ImageKernelRoot c
       | Some m \<Rightarrow> ImageKernelRoot c' = ''root=UUID='' @ FSUUID (mounted i' m)"
    using generateKernelRoot_after_fstab [OF ft] kr c2 ms
    by (auto split: option.splits)
qed

theorem generateKernelRoot_root_mount_witness:
  "fst (generateFSTab (fst (snd rpi3_run)) rpi3_context) = None \<and>
   ImageKernelRoot (snd (generateKernelRoot (fst (snd rpi3_run))
                          (snd (generateFSTab (fst (snd rpi3_run)) rpi3_context))))
     = ''root=UUID=uuid-of-/dev/vda2'' \<and>
   list_all (\<lambda>m. Mountpoint m \<noteq> ''/'') (tl (Mountpoints rpi3_action)) \<and>
   generateKernelRoot (rpi3_action\<lparr>Mountpoints := tl (Mountpoints rpi3_action)\<rparr>) rpi3_context
     = (None, rpi3_context) \<and>
   fst rpi3_run = None \<and>
   ImageKernelRoot (fst (snd (snd rpi3_run))) = ''root=UUID=uuid-of-/dev/vda2''"
proof -
  let ?i = "fst (snd rpi3_run)"
  let ?c = "snd (generateFSTab ?i rpi3_context)"
  have f: "fst (generateFSTab ?i rpi3_context) = None"
    by code_simp
  then have ft: "generateFSTab ?i rpi3_context = (None, ?c)"
    by (simp add: prod_eq_iff)
  have fnd: "find (\<lambda>m. Mountpoint m = ''/'') (Mountpoints ?i) = Some (hd (Mountpoints ?i))"
    by code_simp
  have uuid: "FSUUID (mounted ?i (hd (Mountpoints ?i))) = ''uuid-of-/dev/vda2''"
    by code_simp
  have a: "ImageKernelRoot (snd (generateKernelRoot ?i ?c)) = ''root=UUID=uuid-of-/dev/vda2''"
    using generateKernelRoot_root_mount [where i = ?i and cp = rpi3_context and c = ?c,
        THEN conjunct1, THEN mp, OF ft] fnd uuid
    by simp
  have nr: "list_all (\<lambda>m. Mountpoint m \<noteq> ''/'') (tl (Mountpoints rpi3_action))"
    by code_simp
  then have nr': "\<forall>m\<in>set (Mountpoints (rpi3_action\<lparr>Mountpoints := tl (Mountpoints rpi3_action)\<rparr>)).
                    Mountpoint m \<noteq> ''/''"
    by (simp add: list_all_iff)
  have b: "generateKernelRoot (rpi3_action\<lparr>Mountpoints := tl (Mountpoints rpi3_action)\<rparr>) rpi3_context
             = (None, rpi3_context)"
    by (rule generateKernelRoot_root_mount [THEN conjunct2, THEN conjunct1, THEN mp, OF nr'])
  have ok: "fst rpi3_run = None"
    by code_simp
  then have run: "Run example_env example_lib (snd (Verify example_lib rpi3_action)) rpi3_context []
               = (None, fst (snd rpi3_run), fst (snd (snd rpi3_run)), snd (snd (snd rpi3_run)))"
    by (simp add: rpi3_run_def prod_eq_iff)
  have fnd': "find (\<lambda>m. Mountpoint m = ''/'') (Mountpoints (snd (Verify example_lib rpi3_action)))
                = Some (hd (Mountpoints ?i))"
    by code_simp
  have d: "ImageKernelRoot (fst (snd (snd rpi3_run))) = ''root=UUID=uuid-of-/dev/vda2''"
    using generateKernelRoot_root_mount [where i = "snd (Verify example_lib rpi3_action)"
        and c = rpi3_context and E = example_env and G = example_lib and tr = "[]",
        THEN conjunct2, THEN conjunct2, THEN mp, OF run] fnd' uuid
    by simp
  show ?thesis
    using f a nr b ok d by simp
qed

section \<open>The filesystem alias\<close>

lemma format_programs_append:
  "format_programs (ks @ ks') = format_programs ks @ format_programs ks'"
  by (induction ks rule: format_programs.induct) simp_all

lemma mount_fstypes_append:
  "mount_fstypes (ks @ ks') = mount_fstypes ks @ mount_fstypes ks'"
  by (induction ks rule: mount_fstypes.induct) simp_all

lemma has_prefix_append: "has_prefix (p @ s) p"
  by (induction p) simp_all

lemma set_flags_calls:
  "set_flags E c p fl tr = (e, tr') \<Longrightarrow>
   \<exists>ks. tr' = tr @ ks \<and> format_programs ks = [] \<and> mount_fstypes ks = []"
proof (induction fl arbitrary: tr)
  case Nil
  then show ?case by simp
next
  case (Cons flag fl)
  let ?k = "CommandRun ''parted'' [''parted'', ''-s'', Image c, ''set'', show_int (number p), flag, ''on'']"
  show ?case
  proof (cases "resp_err (E tr ?k)")
    case (Some x)
    with Cons.prems have "tr' = tr @ [?k]"
      by (simp add: perform_eq)
    then show ?thesis by simp
  next
    case None
    with Cons.prems have "set_flags E c p fl (tr @ [?k]) = (e, tr')"
      by (simp add: perform_eq)
    from Cons.IH [OF this] obtain ks where
      "tr' = (tr @ [?k]) @ ks" "format_programs ks = []" "mount_fstypes ks = []"
      by blast
    then have "tr' = tr @ (?k # ks) \<and> format_programs (?k # ks) = [] \<and> mount_fstypes (?k # ks) = []"
      by simp
    then show ?thesis by blast
  qed
qed

lemma formatPartition_calls:
  assumes "getPartitionDevice (number p) c = Some path"
  shows "snd (snd (formatPartition E G p c tr)) =
           tr @ [CommandRun (''Formatting partition '' @ show_int (number p))
                   [''mkfs.'' @ fs_alias (FS p), if FS p = ''fat32'' then ''-n'' else ''-L'', Name p, path],
                 ExecOutput [''blkid'', ''-o'', ''value'', ''-s'', ''UUID'', ''-p'', ''-c'', ''none'', path]]"
  using assms
  by (simp add: formatPartition_def perform_eq Let_def fs_alias_def split: option.splits)

lemma formatPartition_FS:
  "formatPartition E G p c tr = (e, p', tr') \<Longrightarrow> FS p' = FS p"
  by (auto simp: formatPartition_def perform_eq Let_def split: option.splits)

lemma formatPartition_success_calls:
  assumes "formatPartition E G p c tr = (None, p', tr')"
  shows "\<exists>ks. tr' = tr @ ks \<and> format_programs ks = [''mkfs.'' @ fs_alias (FS p)] \<and> mount_fstypes ks = []"
proof -
  from assms obtain path where path: "getPartitionDevice (number p) c = Some path"
    by (auto simp: formatPartition_def Let_def split: option.splits)
  let ?ks = "[CommandRun (''Formatting partition '' @ show_int (number p))
                   [''mkfs.'' @ fs_alias (FS p), if FS p = ''fat32'' then ''-n'' else ''-L'', Name p, path],
                 ExecOutput [''blkid'', ''-o'', ''value'', ''-s'', ''UUID'', ''-p'', ''-c'', ''none'', path]]"
  have "tr' = tr @ ?ks"
    using formatPartition_calls [OF path, of E G tr] assms by simp
  moreover have "format_programs ?ks = [''mkfs.'' @ fs_alias (FS p)]"
    using has_prefix_append [of "''Formatting partition ''" "show_int (number p)"] by simp
  moreover have "mount_fstypes ?ks = []"
    by simp
  ultimately show ?thesis by blast
qed

lemma run_partitions_calls:
  "run_partitions E G pt c ps tr = (None, ps', tr') \<Longrightarrow>
   map FS ps' = map FS ps \<and>
   (\<exists>ks. tr' = tr @ ks \<and> format_programs ks = map (\<lambda>p. ''mkfs.'' @ fs_alias (FS p)) ps \<and>
         mount_fstypes ks = [])"
proof (induction ps arbitrary: tr ps' tr')
  case Nil
  then show ?case by simp
next
  case (Cons p ps)
  let ?k = "CommandRun ''parted'' [''parted'', ''-a'', ''none'', ''-s'', Image c, ''mkpart'',
              if pt = ''gpt'' then Name p else ''primary'', FS p, Start p, End p]"
  from Cons.prems obtain tr2 p' tr3 qs where
    fl: "set_flags E c p (Flags p) (tr @ [?k]) = (None, tr2)" and
    fp: "formatPartition E G p c tr2 = (None, p', tr3)" and
    rec: "run_partitions E G pt c ps tr3 = (None, qs, tr')" and
    ps': "ps' = p' # qs"
    by (auto simp: perform_eq Let_def split: option.splits prod.splits)
  from set_flags_calls [OF fl] obtain k1 where
    k1: "tr2 = (tr @ [?k]) @ k1" "format_programs k1 = []" "mount_fstypes k1 = []"
    by blast
  from formatPartition_success_calls [OF fp] obtain k2 where
    k2: "tr3 = tr2 @ k2" "format_programs k2 = [''mkfs.'' @ fs_alias (FS p)]" "mount_fstypes k2 = []"
    by blast
  from Cons.IH [OF rec] obtain k3 where
    fs: "map FS qs = map FS ps" and
    k3: "tr' = tr3 @ k3" "format_programs k3 = map (\<lambda>p. ''mkfs.'' @ fs_alias (FS p)) ps"
        "mount_fstypes k3 = []"
    by blast
  let ?ks = "?k # k1 @ k2 @ k3"
  have "tr' = tr @ ?ks"
    using k1(1) k2(1) k3(1) by simp
  moreover have "format_programs ?ks = map (\<lambda>p. ''mkfs.'' @ fs_alias (FS p)) (p # ps)"
    using k1(2) k2(2) k3(2) by (simp add: format_programs_append)
  moreover have "mount_fstypes ?ks = []"
    using k1(3) k2(3) k3(3) by (simp add: mount_fstypes_append)
  moreover have "map FS ps' = map FS (p # ps)"
    using ps' fs formatPartition_FS [OF fp] by simp
  ultimately show ?case by blast
qed

lemma mount_one_calls:
  assumes "deref ps (part m) = Some p" and "getPartitionDevice (number p) c = Some dev"
  shows "snd (mount_one E G ps c m tr) =
           tr @ [MkdirAll (path_Join G (ImageMntDir c) (Mountpoint m)),
                 Mount dev (path_Join G (ImageMntDir c) (Mountpoint m)) (fs_alias (FS p))]"
  using assms
  by (simp add: mount_one_def perform_eq Let_def fs_alias_def split: option.splits)

lemma mount_one_success_calls:
  assumes "mount_one E G ps c m tr = (None, tr')"
  shows "\<exists>ks. tr' = tr @ ks \<and> format_programs ks = [] \<and>
              mount_fstypes ks = [fs_alias (FS (the (deref ps (part m))))]"
proof -
  from assms obtain p dev where
    p: "deref ps (part m) = Some p" and dev: "getPartitionDevice (number p) c = Some dev"
    by (auto simp: mount_one_def split: option.splits)
  let ?ks = "[MkdirAll (path_Join G (ImageMntDir c) (Mountpoint m)),
              Mount dev (path_Join G (ImageMntDir c) (Mountpoint m)) (fs_alias (FS p))]"
  have "tr' = tr @ ?ks"
    using mount_one_calls [OF p dev, of E G tr] assms by simp
  moreover have "format_programs ?ks = []" by simp
  moreover have "mount_fstypes ?ks = [fs_alias (FS (the (deref ps (part m))))]"
    using p by simp
  ultimately show ?thesis by blast
qed

lemma mount_all_calls:
  "mount_all E G ps c ms tr = (None, tr') \<Longrightarrow>
   \<exists>ks. tr' = tr @ ks \<and> format_programs ks = [] \<and>
        mount_fstypes ks = map (\<lambda>m. fs_alias (FS (the (deref ps (part m))))) ms"
proof (induction ms arbitrary: tr)
  case Nil
  then show ?case by simp
next
  case (Cons m ms)
  from Cons.prems obtain tr1 where
    one: "mount_one E G ps c m tr = (None, tr1)" and
    rest: "mount_all E G ps c ms tr1 = (None, tr')"
    by (auto split: option.splits prod.splits)
  from mount_one_success_calls [OF one] obtain k1 where
    k1: "tr1 = tr @ k1" "format_programs k1 = []"
        "mount_fstypes k1 = [fs_alias (FS (the (deref ps (part m))))]"
    by blast
  from Cons.IH [OF rest] obtain k2 where
    k2: "tr' = tr1 @ k2" "format_programs k2 = []"
        "mount_fstypes k2 = map (\<lambda>m. fs_alias (FS (the (deref ps (part m))))) ms"
    by blast
  have "tr' = tr @ (k1 @ k2)" using k1(1) k2(1) by simp
  moreover have "format_programs (k1 @ k2) = []"
    using k1(2) k2(2) by (simp add: format_programs_append)
  moreover have "mount_fstypes (k1 @ k2) = map (\<lambda>m. fs_alias (FS (the (deref ps (part m))))) (m # ms)"
    using k1(3) k2(3) by (simp add: mount_fstypes_append)
  ultimately show ?case by blast
qed

lemma deref_FS:
  assumes "map FS ps' = map FS ps"
  shows "map_option FS (deref ps' r) = map_option FS (deref ps r)"
proof -
  from assms have len: "length ps' = length ps"
    by (rule map_eq_imp_length_eq)
  show ?thesis
  proof (cases r)
    case None
    then show ?thesis by (simp add: deref_def)
  next
    case (Some k)
    show ?thesis
    proof (cases "k < length ps")
      case True
      then have "FS (ps' ! k) = FS (ps ! k)"
        using assms len by (metis nth_map)
      with True len Some show ?thesis by (simp add: deref_def)
    next
      case False
      with len Some show ?thesis by (simp add: deref_def)
    qed
  qed
qed

lemma deref_FS_the:
  assumes "map FS ps' = map FS ps"
  shows "FS (the (deref ps' r)) = FS (the (deref ps r))"
proof (cases "deref ps r")
  case None
  with deref_FS [OF assms, of r] have "deref ps' r = None" by simp
  with None show ?thesis by simp
next
  case (Some p)
  with deref_FS [OF assms, of r] obtain p' where "deref ps' r = Some p'" "FS p' = FS p"
    by auto
  with Some show ?thesis by simp
qed

lemma Run_calls:
  assumes "Run E G i c tr = (None, i', c', tr')"
  shows "map FS (Partitions i') = map FS (Partitions i) \<and>
         format_programs (drop (length tr) tr') = map (\<lambda>p. ''mkfs.'' @ fs_alias (FS p)) (Partitions i) \<and>
         mount_fstypes (drop (length tr) tr') = map (\<lambda>m. fs_alias (FS (mounted i m))) (Mountpoints i)"
proof -
  let ?k0 = "CommandRun ''parted'' [''parted'', ''-s'', Image c, ''mklabel'', PartitionType i]"
  let ?k1 = "MkdirAll (path_Join G (Scratchdir c) ''mnt'')"
  from assms obtain ps tr2 where
    rp: "run_partitions E G (PartitionType i) c (Partitions i) (tr @ [?k0]) = (None, ps, tr2)" and
    i': "i' = i\<lparr>Partitions := ps\<rparr>" and
    ma: "mount_all E G ps (c\<lparr>ImageMntDir := path_Join G (Scratchdir c) ''mnt''\<rparr>) (Mountpoints i)
           (tr2 @ [?k1]) = (None, tr')"
    by (rule Run_success_E)
  from run_partitions_calls [OF rp] obtain ka where
    fs: "map FS ps = map FS (Partitions i)" and
    ka: "tr2 = (tr @ [?k0]) @ ka"
        "format_programs ka = map (\<lambda>p. ''mkfs.'' @ fs_alias (FS p)) (Partitions i)"
        "mount_fstypes ka = []"
    by blast
  from mount_all_calls [OF ma] obtain kb where
    kb: "tr' = (tr2 @ [?k1]) @ kb" "format_programs kb = []"
        "mount_fstypes kb = map (\<lambda>m. fs_alias (FS (the (deref ps (part m))))) (Mountpoints i)"
    by blast
  have tr': "drop (length tr) tr' = ?k0 # ka @ ?k1 # kb"
    using ka(1) kb(1) by simp
  have m: "map (\<lambda>m. fs_alias (FS (the (deref ps (part m))))) (Mountpoints i)
             = map (\<lambda>m. fs_alias (FS (mounted i m))) (Mountpoints i)"
    using deref_FS_the [OF fs] by (simp add: mounted_def)
  have "format_programs (?k0 # ka @ ?k1 # kb) = map (\<lambda>p. ''mkfs.'' @ fs_alias (FS p)) (Partitions i)"
    using ka(2) kb(2) by (simp add: format_programs_append)
  moreover have "mount_fstypes (?k0 # ka @ ?k1 # kb) = map (\<lambda>m. fs_alias (FS (mounted i m))) (Mountpoints i)"
    using ka(3) kb(3) m by (simp add: mount_fstypes_append)
  ultimately show ?thesis
    using tr' fs i' by simp
qed

lemma Run_fstab:
  assumes "Run E G i c tr = (None, i', c', tr')"
  shows "ImageFSTab c' = concat (map (\<lambda>m. spec_fstab_line (FSUUID (mounted i' m)) (Mountpoint m)
                                          (fs_alias (FS (mounted i' m))) (Options m)) (Mountpoints i))"
proof -
  from assms obtain ps c2 where
    i': "i' = i\<lparr>Partitions := ps\<rparr>" and
    ft: "generateFSTab i' (c\<lparr>ImageMntDir := path_Join G (Scratchdir c) ''mnt''\<rparr>) = (None, c2)" and
    kr: "generateKernelRoot i' c2 = (None, c')"
    by (rule Run_success_E)
  have "ImageFSTab c' = ImageFSTab c2"
    using generateKernelRoot_fstab [OF kr] .
  also have "\<dots> = concat (map (\<lambda>m. spec_fstab_line (FSUUID (mounted i' m)) (Mountpoint m)
                                         (fs_alias (FS (mounted i' m))) (Options m)) (Mountpoints i'))"
    using generateFSTab_ok [OF generateFSTab_success_D [OF ft],
        of "c\<lparr>ImageMntDir := path_Join G (Scratchdir c) ''mnt''\<rparr>"] ft
    by auto
  finally show ?thesis using i' by simp
qed

text \<open>
  C6. The alias \<open>fat32\<close> is written \<open>vfat\<close>, and any other type is kept, in the three
  places where the type is used. \<open>formatPartition\<close> runs \<open>mkfs.<type>\<close>; one round of
  the mount loop passes the type to \<open>mount\<close>; and in a successful \<open>Run\<close> the formatting
  programs are \<open>mkfs.<type>\<close> for the partitions in order, the types passed to \<open>mount\<close>
  are those of the mounts' partitions in order, and the fstab lines carry the same type
  in their filesystem column.
\<close>

theorem fat32_alias_uniform:
  "fs_alias ''fat32'' = ''vfat'' \<and>
   (fs \<noteq> ''fat32'' \<longrightarrow> fs_alias fs = fs) \<and>
   (getPartitionDevice (number p) c = Some path \<longrightarrow>
      snd (snd (formatPartition E G p c tr)) =
        tr @ [CommandRun (''Formatting partition '' @ show_int (number p))
                [''mkfs.'' @ fs_alias (FS p), if FS p = ''fat32'' then ''-n'' else ''-L'', Name p, path],
              ExecOutput [''blkid'', ''-o'', ''value'', ''-s'', ''UUID'', ''-p'', ''-c'', ''none'', path]]) \<and>
   (deref ps (part m) = Some p \<and> getPartitionDevice (number p) c = Some path \<longrightarrow>
      snd (mount_one E G ps c m tr) =
        tr @ [MkdirAll (path_Join G (ImageMntDir c) (Mountpoint m)),
              Mount path (path_Join G (ImageMntDir c) (Mountpoint m)) (fs_alias (FS p))]) \<and>
   (Run E G i c tr = (None, i', c', tr') \<longrightarrow>
      format_programs (drop (length tr) tr') = map (\<lambda>p. ''mkfs.'' @ fs_alias (FS p)) (Partitions i) \<and>
      mount_fstypes (drop (length tr) tr') = map (\<lambda>m. fs_alias (FS (mounted i m))) (Mountpoints i) \<and>
      ImageFSTab c' = concat (map (\<lambda>m. spec_fstab_line (FSUUID (mounted i' m)) (Mountpoint m)
                                         (fs_alias (FS (mounted i m))) (Options m)) (Mountpoints i)))"
proof (intro conjI impI)
  show "fs_alias ''fat32'' = ''vfat''"
    by (simp add: fs_alias_def)
next
  assume "fs \<noteq> ''fat32''"
  then show "fs_alias fs = fs"
    by (simp add: fs_alias_def)
next
  assume "getPartitionDevice (number p) c = Some path"
  then show "snd (snd (formatPartition E G p c tr)) =
        tr @ [CommandRun (''Formatting partition '' @ show_int (number p))
                [''mkfs.'' @ fs_alias (FS p), if FS p = ''fat32'' then ''-n'' else ''-L'', Name p, path],
              ExecOutput [''blkid'', ''-o'', ''value'', ''-s'', ''UUID'', ''-p'', ''-c'', ''none'', path]]"
    by (rule formatPartition_calls)
next
  assume "deref ps (part m) = Some p \<and> getPartitionDevice (number p) c = Some path"
  then show "snd (mount_one E G ps c m tr) =
        tr @ [MkdirAll (path_Join G (ImageMntDir c) (Mountpoint m)),
              Mount path (path_Join G (ImageMntDir c) (Mountpoint m)) (fs_alias (FS p))]"
    using mount_one_calls by blast
next
  assume run: "Run E G i c tr = (None, i', c', tr')"
  note calls = Run_calls [OF run]
  show "format_programs (drop (length tr) tr') = map (\<lambda>p. ''mkfs.'' @ fs_alias (FS p)) (Partitions i)"
    using calls by simp
  show "mount_fstypes (drop (length tr) tr') = map (\<lambda>m. fs_alias (FS (mounted i m))) (Mountpoints i)"
    using calls by simp
  have fs: "map FS (Partitions i') = map FS (Partitions i)"
    using calls by simp
  have "\<And>m. FS (mounted i' m) = FS (mounted i m)"
    using deref_FS_the [OF fs] by (simp add: mounted_def)
  then show "ImageFSTab c' = concat (map (\<lambda>m. spec_fstab_line (FSUUID (mounted i' m)) (Mountpoint m)
                                         (fs_alias (FS (mounted i m))) (Options m)) (Mountpoints i))"
    using Run_fstab [OF run] by simp
qed

theorem fat32_alias_uniform_witness:
  "''ext4'' \<noteq> ''fat32'' \<and> fs_alias ''ext4'' = ''ext4'' \<and>
   getPartitionDevice (number (hd (Partitions (snd (Verify example_lib rpi3_action))))) rpi3_context
     = Some ''/dev/vda1'' \<and>
   snd (snd (formatPartition example_env example_lib
               (hd (Partitions (snd (Verify example_lib rpi3_action)))) rpi3_context []))
     = [CommandRun ''Formatting partition 1'' [''mkfs.vfat'', ''-n'', ''firmware'', ''/dev/vda1''],
        ExecOutput [''blkid'', ''-o'', ''value'', ''-s'', ''UUID'', ''-p'', ''-c'', ''none'', ''/dev/vda1'']] \<and>
   deref (Partitions (snd (Verify example_lib rpi3_action)))
         (part (last (Mountpoints (snd (Verify example_lib rpi3_action)))))
     = Some (hd (Partitions (snd (Verify example_lib rpi3_action)))) \<and>
   snd (mount_one example_env example_lib (Partitions (snd (Verify example_lib rpi3_action))) rpi3_context
          (last (Mountpoints (snd (Verify example_lib rpi3_action)))) [])
     = [MkdirAll ''/boot/firmware'', Mount ''/dev/vda1'' ''/boot/firmware'' ''vfat''] \<and>
   fst rpi3_run = None \<and>
   format_programs (calls_of rpi3_run) = [''mkfs.vfat'', ''mkfs.ext4''] \<and>
   mount_fstypes (calls_of rpi3_run) = [''ext4'', ''vfat'']"
proof -
  let ?v = "snd (Verify example_lib rpi3_action)"
  let ?p = "hd (Partitions ?v)"
  let ?m = "last (Mountpoints ?v)"
  have ne: "''ext4'' \<noteq> ''fat32''"
    by simp
  have a: "fs_alias ''ext4'' = ''ext4''"
    by (rule fat32_alias_uniform [THEN conjunct2, THEN conjunct1, THEN mp, OF ne])
  have dev: "getPartitionDevice (number ?p) rpi3_context = Some ''/dev/vda1''"
    by code_simp
  have "snd (snd (formatPartition example_env example_lib ?p rpi3_context [])) =
        [] @ [CommandRun (''Formatting partition '' @ show_int (number ?p))
                [''mkfs.'' @ fs_alias (FS ?p), if FS ?p = ''fat32'' then ''-n'' else ''-L'', Name ?p, ''/dev/vda1''],
              ExecOutput [''blkid'', ''-o'', ''value'', ''-s'', ''UUID'', ''-p'', ''-c'', ''none'', ''/dev/vda1'']]"
    by (rule fat32_alias_uniform [THEN conjunct2, THEN conjunct2, THEN conjunct1, THEN mp, OF dev])
  also have "\<dots> = [CommandRun ''Formatting partition 1'' [''mkfs.vfat'', ''-n'', ''firmware'', ''/dev/vda1''],
        ExecOutput [''blkid'', ''-o'', ''value'', ''-s'', ''UUID'', ''-p'', ''-c'', ''none'', ''/dev/vda1'']]"
    by code_simp
  finally have b: "snd (snd (formatPartition example_env example_lib ?p rpi3_context [])) =
        [CommandRun ''Formatting partition 1'' [''mkfs.vfat'', ''-n'', ''firmware'', ''/dev/vda1''],
        ExecOutput [''blkid'', ''-o'', ''value'', ''-s'', ''UUID'', ''-p'', ''-c'', ''none'', ''/dev/vda1'']]" .
  have dr: "deref (Partitions ?v) (part ?m) = Some ?p"
    by code_simp
  have "snd (mount_one example_env example_lib (Partitions ?v) rpi3_context ?m []) =
        [] @ [MkdirAll (path_Join example_lib (ImageMntDir rpi3_context) (Mountpoint ?m)),
              Mount ''/dev/vda1'' (path_Join example_lib (ImageMntDir rpi3_context) (Mountpoint ?m))
                (fs_alias (FS ?p))]"
    by (rule fat32_alias_uniform [THEN conjunct2, THEN conjunct2, THEN conjunct2, THEN conjunct1,
          THEN mp, OF conjI [OF dr dev]])
  also have "\<dots> = [MkdirAll ''/boot/firmware'', Mount ''/dev/vda1'' ''/boot/firmware'' ''vfat'']"
    by code_simp
  finally have d: "snd (mount_one example_env example_lib (Partitions ?v) rpi3_context ?m []) =
        [MkdirAll ''/boot/firmware'', Mount ''/dev/vda1'' ''/boot/firmware'' ''vfat'']" .
  have ok: "fst rpi3_run = None"
    by code_simp
  then have run: "Run example_env example_lib ?v rpi3_context []
               = (None, fst (snd rpi3_run), fst (snd (snd rpi3_run)), calls_of rpi3_run)"
    by (simp add: rpi3_run_def prod_eq_iff calls_of_def)
  note r = fat32_alias_uniform [THEN conjunct2, THEN conjunct2, THEN conjunct2, THEN conjunct2,
      THEN mp, OF run]
  have "format_programs (calls_of rpi3_run) = map (\<lambda>p. ''mkfs.'' @ fs_alias (FS p)) (Partitions ?v)"
    using r by simp
  also have "\<dots> = [''mkfs.vfat'', ''mkfs.ext4'']"
    by code_simp
  finally have e: "format_programs (calls_of rpi3_run) = [''mkfs.vfat'', ''mkfs.ext4'']" .
  have "mount_fstypes (calls_of rpi3_run) = map (\<lambda>m. fs_alias (FS (mounted ?v m))) (Mountpoints ?v)"
    using r by simp
  also have "\<dots> = [''ext4'', ''vfat'']"
    by code_simp
  finally have f: "mount_fstypes (calls_of rpi3_run) = [''ext4'', ''vfat'']" .
  show ?thesis
    using ne a dev b dr d ok e f by blast
qed

section \<open>Verify resolves the mounts\<close>

lemma find_partition_None_iff:
  "find_partition nm ps k = None \<longleftrightarrow> nm \<notin> Name ` set ps"
  by (induction ps arbitrary: k) auto

lemma find_partition_Some:
  "find_partition nm ps k = Some j \<Longrightarrow>
   k \<le> j \<and> j - k < length ps \<and> Name (ps ! (j - k)) = nm \<and> (\<forall>j'<j - k. Name (ps ! j') \<noteq> nm)"
proof (induction ps arbitrary: k)
  case Nil
  then show ?case by simp
next
  case (Cons p ps)
  show ?case
  proof (cases "nm = Name p")
    case True
    with Cons.prems show ?thesis by simp
  next
    case False
    with Cons.prems have rec: "find_partition nm ps (Suc k) = Some j" by simp
    from Cons.IH [OF rec] have
      le: "Suc k \<le> j" and len: "j - Suc k < length ps" and
      nm: "Name (ps ! (j - Suc k)) = nm" and
      first: "\<forall>j'<j - Suc k. Name (ps ! j') \<noteq> nm"
      by simp_all
    from le have jk: "j - k = Suc (j - Suc k)" by simp
    have "\<forall>j'<j - k. Name ((p # ps) ! j') \<noteq> nm"
    proof (intro allI impI)
      fix j' assume "j' < j - k"
      then show "Name ((p # ps) ! j') \<noteq> nm"
        using False first jk by (cases j') auto
    qed
    then show ?thesis
      using le len nm jk by simp
  qed
qed

lemma verify_partitions_names:
  "verify_partitions num ps = (e, ps') \<Longrightarrow> map Name ps' = map Name ps"
proof (induction ps arbitrary: num e ps')
  case Nil
  then show ?case by simp
next
  case (Cons p ps)
  then show ?case
    by (auto simp: Let_def split: if_splits prod.splits)
qed

lemma verify_partitions_ok_iff:
  "fst (verify_partitions num ps) = None \<longleftrightarrow> list_all well_formed ps"
proof (induction ps arbitrary: num)
  case Nil
  then show ?case by simp
next
  case (Cons p ps)
  have "fst (verify_partitions (num + 1) ps) = None \<longleftrightarrow> list_all well_formed ps"
    by (rule Cons.IH)
  moreover have "well_formed p \<longleftrightarrow> Name p \<noteq> [] \<and> Start p \<noteq> [] \<and> End p \<noteq> [] \<and> FS p \<noteq> []"
    by (simp add: well_formed_def)
  ultimately show ?case
    by (cases "verify_partitions (num + 1) ps") (auto simp: Let_def)
qed

lemma resolve_mounts_error:
  "fst (resolve_mounts ps ms) = Some e \<Longrightarrow> \<exists>mp. e = PartitionNotFound mp"
  by (induction ms) (auto simp: Let_def split: option.splits prod.splits if_splits)

lemma resolve_mounts_ok_iff:
  "\<forall>m\<in>set ms. part m = None \<Longrightarrow>
   fst (resolve_mounts ps ms) = None \<longleftrightarrow> (\<forall>m\<in>set ms. Partition m \<in> Name ` set ps)"
proof (induction ms)
  case Nil
  then show ?case by simp
next
  case (Cons m ms)
  then have IH: "fst (resolve_mounts ps ms) = None \<longleftrightarrow> (\<forall>m\<in>set ms. Partition m \<in> Name ` set ps)"
    by simp
  from Cons.prems have fresh: "part m = None" by simp
  show ?case
  proof (cases "find_partition (Partition m) ps 0")
    case None
    then have "Partition m \<notin> Name ` set ps"
      by (simp add: find_partition_None_iff)
    with None fresh show ?thesis by simp
  next
    case (Some k)
    then have "Partition m \<in> Name ` set ps"
      using find_partition_None_iff [of "Partition m" ps 0] by auto
    with Some IH show ?thesis
      by (cases "resolve_mounts ps ms") simp
  qed
qed

lemma resolve_mounts_links:
  "resolve_mounts ps ms = (None, ms') \<Longrightarrow>
   length ms' = length ms \<and>
   (\<forall>k<length ms. Partition (ms ! k) \<in> Name ` set ps \<longrightarrow>
       ms' ! k = (ms ! k)\<lparr>part := find_partition (Partition (ms ! k)) ps 0\<rparr>)"
proof (induction ms arbitrary: ms')
  case Nil
  then show ?case by simp
next
  case (Cons m ms)
  let ?m' = "case find_partition (Partition m) ps 0 of Some k \<Rightarrow> m\<lparr>part := Some k\<rparr> | None \<Rightarrow> m"
  from Cons.prems obtain qs where
    rec: "resolve_mounts ps ms = (None, qs)" and ms': "ms' = ?m' # qs"
    by (auto simp: Let_def split: if_splits prod.splits)
  from Cons.IH [OF rec] have
    len: "length qs = length ms" and
    nth: "\<forall>k<length ms. Partition (ms ! k) \<in> Name ` set ps \<longrightarrow>
             qs ! k = (ms ! k)\<lparr>part := find_partition (Partition (ms ! k)) ps 0\<rparr>"
    by simp_all
  have hd: "Partition m \<in> Name ` set ps \<Longrightarrow> ?m' = m\<lparr>part := find_partition (Partition m) ps 0\<rparr>"
    using find_partition_None_iff [of "Partition m" ps 0] by (auto split: option.splits)
  show ?case
  proof (intro conjI allI impI)
    show "length ms' = length (m # ms)" using ms' len by simp
  next
    fix k
    assume k: "k < length (m # ms)" and d: "Partition ((m # ms) ! k) \<in> Name ` set ps"
    show "ms' ! k = ((m # ms) ! k)\<lparr>part := find_partition (Partition ((m # ms) ! k)) ps 0\<rparr>"
    proof (cases k)
      case 0
      with d hd ms' show ?thesis by simp
    next
      case (Suc k')
      with k d nth ms' show ?thesis by simp
    qed
  qed
qed

lemma Verify_fst:
  "fst (Verify G i) =
     (case fst (verify_partitions 1 (Partitions i)) of
        Some e \<Rightarrow> Some e
      | None \<Rightarrow>
          (case fst (resolve_mounts (snd (verify_partitions 1 (Partitions i))) (Mountpoints i)) of
             Some e \<Rightarrow> Some e
           | None \<Rightarrow>
               (case FromHumanSize G (ImageSize i) of
                  None \<Rightarrow> Some (ImageSizeParse (ImageSize i))
                | Some sz \<Rightarrow> None)))"
  by (simp add: Verify_def split: option.splits prod.splits)

lemma verify_partitions_name_set:
  "Name ` set (snd (verify_partitions num ps)) = Name ` set ps"
proof -
  have "map Name (snd (verify_partitions num ps)) = map Name ps"
    using verify_partitions_names [of num ps] by (cases "verify_partitions num ps") simp
  then have "set (map Name (snd (verify_partitions num ps))) = set (map Name ps)"
    by simp
  then show ?thesis by simp
qed

text \<open>
  C4, as the code has it. For well-formed partitions and mounts as the recipe gives them
  (no link yet), the mount loop of \<open>Verify\<close> fails exactly when some mount names a
  partition that is not declared; \<open>Verify\<close> as a whole succeeds exactly when every mount
  names a declared partition and the image size parses. A name carried by several
  partitions is accepted: each mount is linked to the first declared partition of its
  name. When a mount names an undeclared partition, the error is the one of the mount
  loop and a build stops there with no call made on the host.
\<close>

theorem Verify_resolves_declared:
  assumes wf: "list_all well_formed (Partitions i)"
      and fresh: "list_all (\<lambda>m. part m = None) (Mountpoints i)"
  shows
   "((\<forall>mp. fst (Verify G i) \<noteq> Some (PartitionNotFound mp)) \<longleftrightarrow>
       (\<forall>m\<in>set (Mountpoints i). Partition m \<in> Name ` set (Partitions i))) \<and>
    (fst (Verify G i) = None \<longleftrightarrow>
       (\<forall>m\<in>set (Mountpoints i). Partition m \<in> Name ` set (Partitions i)) \<and>
       FromHumanSize G (ImageSize i) \<noteq> None) \<and>
    ((\<exists>m\<in>set (Mountpoints i). Partition m \<notin> Name ` set (Partitions i)) \<longrightarrow>
       (\<exists>mp. fst (Verify G i) = Some (PartitionNotFound mp)) \<and>
       build_host E G i c tr = (fst (Verify G i), snd (Verify G i), c, tr) \<and>
       build_in_machine E G i c tr = (fst (Verify G i), snd (Verify G i), c, tr)) \<and>
    (fst (Verify G i) = None \<longrightarrow>
       length (Mountpoints (snd (Verify G i))) = length (Mountpoints i) \<and>
       (\<forall>k<length (Mountpoints i). \<exists>j<length (Partitions i).
           part (Mountpoints (snd (Verify G i)) ! k) = Some j \<and>
           Name (Partitions i ! j) = Partition (Mountpoints i ! k) \<and>
           (\<forall>j'<j. Name (Partitions i ! j') \<noteq> Partition (Mountpoints i ! k))))"
proof -
  let ?ps = "snd (verify_partitions 1 (Partitions i))"
  let ?declared = "\<forall>m\<in>set (Mountpoints i). Partition m \<in> Name ` set (Partitions i)"
  have vp: "fst (verify_partitions 1 (Partitions i)) = None"
    using wf by (simp add: verify_partitions_ok_iff)
  have names: "Name ` set ?ps = Name ` set (Partitions i)"
    by (rule verify_partitions_name_set)
  have fresh': "\<forall>m\<in>set (Mountpoints i). part m = None"
    using fresh by (simp add: list_all_iff)
  have rm: "fst (resolve_mounts ?ps (Mountpoints i)) = None \<longleftrightarrow> ?declared"
    using resolve_mounts_ok_iff [OF fresh', of ?ps] names by simp
  have V: "fst (Verify G i) =
     (case fst (resolve_mounts ?ps (Mountpoints i)) of
        Some e \<Rightarrow> Some e
      | None \<Rightarrow> (case FromHumanSize G (ImageSize i) of
                   None \<Rightarrow> Some (ImageSizeParse (ImageSize i))
                 | Some sz \<Rightarrow> None))"
    using vp by (simp add: Verify_fst)
  have undeclared: "\<exists>mp. fst (Verify G i) = Some (PartitionNotFound mp)" if "\<not> ?declared"
  proof -
    from that rm obtain e where e: "fst (resolve_mounts ?ps (Mountpoints i)) = Some e"
      by (cases "fst (resolve_mounts ?ps (Mountpoints i))") auto
    from resolve_mounts_error [OF e] obtain mp where "e = PartitionNotFound mp" ..
    with e V show ?thesis by simp
  qed
  have declared: "fst (Verify G i) = (case FromHumanSize G (ImageSize i) of
                   None \<Rightarrow> Some (ImageSizeParse (ImageSize i)) | Some sz \<Rightarrow> None)" if "?declared"
    using that rm V by simp
  have p1: "(\<forall>mp. fst (Verify G i) \<noteq> Some (PartitionNotFound mp)) \<longleftrightarrow> ?declared"
  proof
    assume "\<forall>mp. fst (Verify G i) \<noteq> Some (PartitionNotFound mp)"
    with undeclared show ?declared by blast
  next
    assume ?declared
    from declared [OF this] show "\<forall>mp. fst (Verify G i) \<noteq> Some (PartitionNotFound mp)"
      by (simp split: option.splits)
  qed
  have p2: "fst (Verify G i) = None \<longleftrightarrow> ?declared \<and> FromHumanSize G (ImageSize i) \<noteq> None"
  proof (cases ?declared)
    case True
    from declared [OF True] True show ?thesis
      by (simp split: option.splits)
  next
    case False
    from undeclared [OF False] False show ?thesis by auto
  qed
  have p3: "(\<exists>mp. fst (Verify G i) = Some (PartitionNotFound mp)) \<and>
       build_host E G i c tr = (fst (Verify G i), snd (Verify G i), c, tr) \<and>
       build_in_machine E G i c tr = (fst (Verify G i), snd (Verify G i), c, tr)"
    if "\<exists>m\<in>set (Mountpoints i). Partition m \<notin> Name ` set (Partitions i)"
  proof -
    from that have "\<not> ?declared" by blast
    from undeclared [OF this] obtain mp where mp: "fst (Verify G i) = Some (PartitionNotFound mp)" ..
    obtain a' where a': "Verify G i = (Some (PartitionNotFound mp), a')"
      using mp by (cases "Verify G i") simp
    then have "build_host E G i c tr = (Some (PartitionNotFound mp), a', c, tr)"
      and "build_in_machine E G i c tr = (Some (PartitionNotFound mp), a', c, tr)"
      by (simp_all add: build_host_def build_in_machine_def)
    with a' show ?thesis by simp
  qed
  have p4: "length (Mountpoints (snd (Verify G i))) = length (Mountpoints i) \<and>
       (\<forall>k<length (Mountpoints i). \<exists>j<length (Partitions i).
           part (Mountpoints (snd (Verify G i)) ! k) = Some j \<and>
           Name (Partitions i ! j) = Partition (Mountpoints i ! k) \<and>
           (\<forall>j'<j. Name (Partitions i ! j') \<noteq> Partition (Mountpoints i ! k)))"
    if ok: "fst (Verify G i) = None"
  proof -
    from ok have "Verify G i = (None, snd (Verify G i))"
      by (simp add: prod_eq_iff)
    from Verify_success_D [OF this] obtain ps ms sz where
      vps: "verify_partitions 1 (Partitions i) = (None, ps)" and
      rms: "resolve_mounts ps (Mountpoints i) = (None, ms)" and
      a': "snd (Verify G i) = i\<lparr>Partitions := ps, Mountpoints := ms, size64 := sz\<rparr>"
      by blast
    have nm: "map Name ps = map Name (Partitions i)"
      using verify_partitions_names [OF vps] .
    then have len: "length ps = length (Partitions i)"
      by (rule map_eq_imp_length_eq)
    have nth_name: "Name (ps ! j) = Name (Partitions i ! j)" if "j < length ps" for j
      using nm that by (metis nth_map len)
    have set_nm: "Name ` set ps = Name ` set (Partitions i)"
      using names vps by simp
    from p2 ok have decl: ?declared by simp
    from resolve_mounts_links [OF rms] have
      mlen: "length ms = length (Mountpoints i)" and
      link: "\<forall>k<length (Mountpoints i). Partition (Mountpoints i ! k) \<in> Name ` set ps \<longrightarrow>
               ms ! k = (Mountpoints i ! k)\<lparr>part := find_partition (Partition (Mountpoints i ! k)) ps 0\<rparr>"
      by simp_all
    have "\<exists>j<length (Partitions i).
           part (ms ! k) = Some j \<and>
           Name (Partitions i ! j) = Partition (Mountpoints i ! k) \<and>
           (\<forall>j'<j. Name (Partitions i ! j') \<noteq> Partition (Mountpoints i ! k))"
      if k: "k < length (Mountpoints i)" for k
    proof -
      let ?nm = "Partition (Mountpoints i ! k)"
      from k decl have in_names: "?nm \<in> Name ` set ps"
        using set_nm by simp
      with link k have mk: "part (ms ! k) = find_partition ?nm ps 0"
        by simp
      from in_names obtain j where j: "find_partition ?nm ps 0 = Some j"
        using find_partition_None_iff [of ?nm ps 0] by (cases "find_partition ?nm ps 0") auto
      from find_partition_Some [OF j] have
        jl: "j < length ps" and jn: "Name (ps ! j) = ?nm" and
        first: "\<forall>j'<j. Name (ps ! j') \<noteq> ?nm"
        by simp_all
      have "\<forall>j'<j. Name (Partitions i ! j') \<noteq> ?nm"
      proof (intro allI impI)
        fix j' assume j': "j' < j"
        with jl have "j' < length ps" by simp
        from nth_name [OF this] have "Name (Partitions i ! j') = Name (ps ! j')" by simp
        moreover from first j' have "Name (ps ! j') \<noteq> ?nm" by simp
        ultimately show "Name (Partitions i ! j') \<noteq> ?nm" by simp
      qed
      moreover have "Name (Partitions i ! j) = ?nm"
        using jn nth_name [OF jl] by simp
      ultimately show ?thesis
        using mk j jl len by auto
    qed
    then show ?thesis
      using a' mlen by simp
  qed
  from p1 p2 p3 p4 show ?thesis by blast
qed

text \<open>
  The recipe with two partitions named \<open>data\<close> and a mount on \<open>data\<close>: the name
  matches two declared partitions, and \<open>Verify\<close> succeeds, linking the mount to the
  first of them.
\<close>

theorem Verify_accepts_duplicate_names:
  "map Partition (Mountpoints dup_names_action) = [''data''] \<and>
   count_named ''data'' (Partitions dup_names_action) = 2 \<and>
   fst (Verify example_lib dup_names_action) = None \<and>
   map part (Mountpoints (snd (Verify example_lib dup_names_action))) = [Some 0]"
  by code_simp

theorem Verify_resolves_declared_witness:
  "list_all well_formed (Partitions rpi3_action) \<and>
   list_all (\<lambda>m. part m = None) (Mountpoints rpi3_action) \<and>
   fst (Verify example_lib rpi3_action) = None \<and>
   list_ex (\<lambda>m. Partition m \<notin> Name ` set (Partitions (rpi3_action\<lparr>Partitions := tl (Partitions rpi3_action)\<rparr>)))
           (Mountpoints rpi3_action) \<and>
   build_host example_env example_lib (rpi3_action\<lparr>Partitions := tl (Partitions rpi3_action)\<rparr>) example_context []
     = (Some (PartitionNotFound ''/boot/firmware''),
        snd (Verify example_lib (rpi3_action\<lparr>Partitions := tl (Partitions rpi3_action)\<rparr>)),
        example_context, [])"
proof -
  let ?b = "rpi3_action\<lparr>Partitions := tl (Partitions rpi3_action)\<rparr>"
  have wf: "list_all well_formed (Partitions rpi3_action)"
    by code_simp
  have fresh: "list_all (\<lambda>m. part m = None) (Mountpoints rpi3_action)"
    by code_simp
  have decl: "\<forall>m\<in>set (Mountpoints rpi3_action). Partition m \<in> Name ` set (Partitions rpi3_action)"
    by (simp add: rpi3_action_def)
  have sz: "FromHumanSize example_lib (ImageSize rpi3_action) \<noteq> None"
    by (simp add: example_lib_def rpi3_action_def)
  have ok: "fst (Verify example_lib rpi3_action) = None"
    using Verify_resolves_declared [OF wf fresh, of example_lib] decl sz by blast
  have wfb: "list_all well_formed (Partitions ?b)"
    by code_simp
  have freshb: "list_all (\<lambda>m. part m = None) (Mountpoints ?b)"
    by code_simp
  have ex: "list_ex (\<lambda>m. Partition m \<notin> Name ` set (Partitions ?b)) (Mountpoints rpi3_action)"
    by (simp add: rpi3_action_def)
  then have ex': "\<exists>m\<in>set (Mountpoints ?b). Partition m \<notin> Name ` set (Partitions ?b)"
    by (simp add: list_ex_iff)
  have e: "fst (Verify example_lib ?b) = Some (PartitionNotFound ''/boot/firmware'')"
    by code_simp
  have "build_host example_env example_lib ?b example_context []
          = (fst (Verify example_lib ?b), snd (Verify example_lib ?b), example_context, [])"
    using Verify_resolves_declared [OF wfb freshb, of example_lib example_env example_context "[]"] ex'
    by blast
  with e wf fresh ok ex show ?thesis
    by simp
qed

section \<open>Device paths\<close>

lemma getPartitionDevice_rule:
  "getPartitionDevice n c =
     (if Image c = [] then None
      else Some (Image c
                 @ (if is_digit (last (Image c))
                    then (if contains_str (Image c) ''/disk/by-id/'' then ''-part'' else ''p'')
                    else [])
                 @ show_int n))"
  by (simp add: getPartitionDevice_def Let_def)

text \<open>
  C2. The three-way rule holds for the two examples outside \<open>by-id\<close> and for a
  \<open>by-id\<close> path that ends in a digit. A \<open>by-id\<close> path that does not end in a digit gets
  the bare number: the \<open>-part\<close> suffix is chosen first but used only in the branch for a
  final digit.
\<close>

theorem getPartitionDevice_by_id_without_digit:
  "getPartitionDevice 3 (example_context\<lparr>Image := ''/dev/disk/by-id/foo''\<rparr>)
     = Some ''/dev/disk/by-id/foo3'' \<and>
   getPartitionDevice 1 (example_context\<lparr>Image := ''/dev/disk/by-id/virtio-fakedisk-0''\<rparr>)
     = Some ''/dev/disk/by-id/virtio-fakedisk-0-part1'' \<and>
   getPartitionDevice 2 (example_context\<lparr>Image := ''/tmp/image5''\<rparr>) = Some ''/tmp/image5p2'' \<and>
   getPartitionDevice 1 (example_context\<lparr>Image := ''/tmp/image''\<rparr>) = Some ''/tmp/image1''"
  by code_simp

section \<open>The loop device\<close>

lemma PreNoMachine_sets_flag_on_copy:
  "PreNoMachine E G i c tr = (None, i', c', tr') \<Longrightarrow> usingLoop i'"
  by (auto simp: PreNoMachine_def perform_eq split: option.splits)

lemma after_value_call_usingLoop:
  "usingLoop (after_value_call a i') = usingLoop a"
  by (simp add: after_value_call_def)

lemma exec_runs_unmounts:
  "exec_runs (map (\<lambda>m. Unmount (f m)) ms) = []"
  by (induction ms) simp_all

lemma exec_runs_append:
  "exec_runs (ks @ ks') = exec_runs ks @ exec_runs ks'"
  by (induction ks rule: exec_runs.induct) simp_all

lemma Cleanup_after_PreNoMachine:
  assumes "\<not> usingLoop a" and "PreNoMachine E G a c tr = (e, i', c', tr')"
  shows "exec_runs (drop (length tr1) (snd (Cleanup E1 G (after_value_call a i') c1 tr1))) = []"
  using assms(1)
  by (simp add: Cleanup_def Let_def unmount_from_calls after_value_call_usingLoop exec_runs_unmounts)

lemma Verify_usingLoop:
  "usingLoop (snd (Verify G a)) = usingLoop a"
  by (simp add: Verify_def split: option.splits prod.splits)

lemma phases_in_machine_usingLoop:
  "usingLoop (fst (snd (phases_in_machine E G a c tr))) = usingLoop a"
  by (simp add: phases_in_machine_def after_value_call_def Let_def split: option.splits prod.splits)

lemma build_host_usingLoop:
  "usingLoop (fst (snd (build_host E G a c tr))) = usingLoop a"
proof -
  obtain e a1 where v: "Verify G a = (e, a1)"
    by (cases "Verify G a") auto
  then have a1: "usingLoop a1 = usingLoop a"
    using Verify_usingLoop [of G a] by simp
  obtain e2 i2 c2 tr2 where p: "PreNoMachine E G a1 c tr = (e2, i2, c2, tr2)"
    by (cases "PreNoMachine E G a1 c tr") auto
  show ?thesis
    using v p a1
    by (cases e; cases e2)
       (simp_all add: build_host_def phases_in_machine_usingLoop after_value_call_usingLoop)
qed

text \<open>
  C1. The documentation example built on the host: \<open>PreNoMachine\<close> attaches the image to
  a loop device, the build succeeds, and no \<open>losetup -d\<close> (no process at all is started
  with \<open>Run()\<close>) is among the calls; the action the driver holds still has \<open>usingLoop\<close>
  unset at the end.
\<close>

theorem host_build_leaves_loop_attached:
  "fst (build_host example_env example_lib rpi3_action example_context []) = None \<and>
   ExecOutput [''losetup'', ''-f'', ''--show'', ''debian-rpi3.img'']
     \<in> set (calls_of (build_host example_env example_lib rpi3_action example_context [])) \<and>
   Image (fst (snd (snd (build_host example_env example_lib rpi3_action example_context []))))
     = ''/dev/loop0'' \<and>
   exec_runs (calls_of (build_host example_env example_lib rpi3_action example_context [])) = [] \<and>
   usingLoop (fst (snd (build_host example_env example_lib rpi3_action example_context []))) = False"
  by code_simp

section \<open>Formatting\<close>

lemma formatPartition_error:
  assumes "getPartitionDevice (number p) c = Some path"
  shows "fst (formatPartition E G p c tr) =
     (case resp_err (E (tr @ [CommandRun (''Formatting partition '' @ show_int (number p))
                                 ((if FS p = ''fat32'' then [''mkfs.vfat'', ''-n'', Name p]
                                   else [''mkfs.'' @ FS p, ''-L'', Name p]) @ [path])])
                       (ExecOutput [''blkid'', ''-o'', ''value'', ''-s'', ''UUID'', ''-p'', ''-c'', ''none'', path])) of
        Some e \<Rightarrow> Some (FailedToGetUUID e)
      | None \<Rightarrow> None)"
  using assms
  by (simp add: formatPartition_def perform_eq Let_def split: option.splits)

text \<open>
  C3. On a host where every formatting command exits with a failure and \<open>blkid\<close> still
  reads a UUID from the device, \<open>Run\<close> on the documentation example issues
  \<open>mkfs.vfat\<close>, is answered with the failure, and returns nil.
\<close>

theorem mkfs_failure_not_returned:
  "resp_err (mkfs_fails_env [] (CommandRun ''Formatting partition 1''
                                   [''mkfs.vfat'', ''-n'', ''firmware'', ''/dev/vda1'']))
     = Some ''exit status 1'' \<and>
   CommandRun ''Formatting partition 1'' [''mkfs.vfat'', ''-n'', ''firmware'', ''/dev/vda1'']
     \<in> set (calls_of (Run mkfs_fails_env example_lib (snd (Verify example_lib rpi3_action)) rpi3_context [])) \<and>
   fst (Run mkfs_fails_env example_lib (snd (Verify example_lib rpi3_action)) rpi3_context []) = None"
  by code_simp

end
